theory Spec2Isabelle
  imports Complex_Main
begin

section \<open>The restaurant-review pipeline of main.py\<close>

text \<open>
  The development embeds the deterministic parts of \<^verbatim>\<open>main.py\<close>: the two tool
  functions \<^verbatim>\<open>fetch_restaurant_data\<close> and \<^verbatim>\<open>calculate_overall_score\<close>, the
  stage list \<^verbatim>\<open>chat_sequence\<close> and the final-answer extraction at the end of
  \<^verbatim>\<open>main\<close>.

  Conventions of the embedding.
  \<^item> A Python \<^verbatim>\<open>str\<close> is a \<open>string\<close> whose characters are code points below 256
    (the Latin-1 range, which holds every character of the program's own literals).
  \<^item> A Python \<^verbatim>\<open>int\<close> is an \<open>int\<close>. A Python \<^verbatim>\<open>float\<close> is modelled twice. In
    \<open>calculate_overall_score\<close> it is a \<open>real\<close> and the arithmetic is exact: this
    reading has the control flow and the exceptions of the source and is used for what
    does not turn on the last bit (which inputs raise, the fallback, the range of the
    result). In \<open>calculate_overall_score_b64\<close> it is a binary64 number and every
    operation rounds as IEEE 754 does: this reading is used for the value returned.
    The two readings return on the same inputs and raise the same exceptions
    (\<open>readings_agree_on_returning\<close>, \<open>readings_agree_on_raising\<close>).
  \<^item> A raised exception is the \<open>Inl\<close> of a sum; \<^verbatim>\<open>print\<close> appends to a list of
    printed strings.
\<close>

subsection \<open>Exceptions\<close>

datatype py_error =
    ValueError      \<comment> \<open>\<^verbatim>\<open>math.sqrt\<close> of a negative number: math domain error\<close>
  | OverflowError   \<comment> \<open>int too large to convert to float\<close>
  | IndexError      \<comment> \<open>list index out of range\<close>
  | ReadError       \<comment> \<open>any exception of \<^verbatim>\<open>open\<close>/\<open>readlines\<close> other than FileNotFoundError\<close>
  | KeyError        \<comment> \<open>a dictionary without the key asked for\<close>
  | TypeError       \<comment> \<open>\<^verbatim>\<open>re.search\<close> on a value that is not a string\<close>
  | ZeroDivisionError  \<comment> \<open>float division by zero\<close>

subsection \<open>Library functions used by the score kernel\<close>

text \<open>
  \<^verbatim>\<open>xs[i]\<close> for a non-negative index: IndexError out of range.
\<close>

definition py_index :: "'a list \<Rightarrow> nat \<Rightarrow> py_error + 'a" where
  "py_index xs i = (if i < length xs then Inr (xs ! i) else Inl IndexError)"

text \<open>
  The first integer magnitude that does not convert to a binary64 float: the conversion
  rounds to 53 bits, half to even, and \<open>2 ^ 1024 - 2 ^ 970\<close> is the midpoint between the
  largest finite float and \<open>2 ^ 1024\<close>.
\<close>

definition float_overflow_bound :: int where
  "float_overflow_bound = 2 ^ 1024 - 2 ^ 970"

text \<open>
  \<^verbatim>\<open>math.sqrt(x)\<close> at an integer argument: the argument is converted to a float first
  (OverflowError), a negative argument is a domain error (ValueError).
\<close>

definition math_sqrt :: "int \<Rightarrow> py_error + real" where
  "math_sqrt x =
     (if float_overflow_bound \<le> \<bar>x\<bar> then Inl OverflowError
      else if x < 0 then Inl ValueError
      else Inr (sqrt (real_of_int x)))"

text \<open>
  \<^verbatim>\<open>round(x, ndigits)\<close> on a float rounds the exact value of \<open>x\<close> to \<open>ndigits\<close>
  decimals, a tie going to the even neighbour.
\<close>

definition round_half_even :: "real \<Rightarrow> int" where
  "round_half_even x =
     (let f = \<lfloor>x\<rfloor>; d = x - real_of_int f
      in if d < 1 / 2 then f
         else if 1 / 2 < d then f + 1
         else if even f then f else f + 1)"

definition py_round :: "real \<Rightarrow> nat \<Rightarrow> real" where
  "py_round x ndigits = real_of_int (round_half_even (x * 10 ^ ndigits)) / 10 ^ ndigits"

subsection \<open>calculate_overall_score\<close>

text \<open>
  The loop \<^verbatim>\<open>for i in range(n): total_score += math.sqrt(food_scores[i]**2 *
  customer_service_scores[i])\<close>, over the list of indices still to visit, with the running
  total as accumulator. It stops at the first exception.
\<close>

fun score_loop :: "int list \<Rightarrow> int list \<Rightarrow> nat list \<Rightarrow> real \<Rightarrow> py_error + real" where
  "score_loop food_scores customer_service_scores [] total_score = Inr total_score"
| "score_loop food_scores customer_service_scores (i # is) total_score =
     (case py_index food_scores i of
        Inl e \<Rightarrow> Inl e
      | Inr f \<Rightarrow>
          (case py_index customer_service_scores i of
             Inl e \<Rightarrow> Inl e
           | Inr c \<Rightarrow>
               (case math_sqrt (f ^ 2 * c) of
                  Inl e \<Rightarrow> Inl e
                | Inr score_component \<Rightarrow>
                    score_loop food_scores customer_service_scores is
                      (total_score + score_component))))"

definition calculate_overall_score ::
  "string \<Rightarrow> int list \<Rightarrow> int list \<Rightarrow> py_error + (string \<rightharpoonup> real)" where
  "calculate_overall_score restaurant_name food_scores customer_service_scores =
     (if food_scores = [] \<or> customer_service_scores = []
         \<or> length food_scores \<noteq> length customer_service_scores
      then Inr [restaurant_name \<mapsto> 0]
      else
        let n = length food_scores in
        case score_loop food_scores customer_service_scores [0..<n] 0 of
          Inl e \<Rightarrow> Inl e
        | Inr total_score \<Rightarrow>
            Inr [restaurant_name \<mapsto>
                   py_round (total_score * (1 / (real n * sqrt 125)) * 10) 3])"

text \<open>
  The formula as the specification words it: the sum over \<open>i\<close> of
  \<open>sqrt (food_scores[i]^2 * service_scores[i])\<close>, times \<open>1 / (N * sqrt 125)\<close>, times
  \<open>10\<close>, rounded to three decimals.
\<close>

definition spec_overall_score :: "int list \<Rightarrow> int list \<Rightarrow> real" where
  "spec_overall_score food_scores service_scores =
     py_round
       ((\<Sum>i<length food_scores. sqrt (real_of_int ((food_scores ! i) ^ 2 * service_scores ! i)))
          * (1 / (real (length food_scores) * sqrt 125)) * 10) 3"

subsection \<open>Binary64 arithmetic\<close>

text \<open>
  A binary64 number is a finite value, an infinity or a NaN. A finite value is kept as
  the real number it stands for; the two zeros are not told apart (they compare equal
  in Python and nothing here divides by a zero without raising).
\<close>

datatype b64 = Finite real | PInf | NInf | NaN

text \<open>
  Rounding to nearest, ties to even, on the grid of binary64: 53 significant bits, so
  the grid step around \<open>x\<close> is \<open>2\<close> to the power \<open>\<lfloor>log 2 \<bar>x\<bar>\<rfloor> - 52\<close>, and never below
  \<open>2\<close> to the power \<open>-1074\<close>, the step of the subnormal numbers.
\<close>

definition nearest_double :: "real \<Rightarrow> real" where
  "nearest_double x =
     (let e = max (\<lfloor>log 2 \<bar>x\<bar>\<rfloor> - 52) (- 1074)
      in real_of_int (round_half_even (x / 2 powr real_of_int e)) * 2 powr real_of_int e)"

text \<open>
  The result of an arithmetic operation whose exact value is \<open>x\<close>: the rounded value,
  or an infinity when it lies beyond the largest finite number.
\<close>

definition b64_of_real :: "real \<Rightarrow> b64" where
  "b64_of_real x =
     (let y = nearest_double x
      in if 2 ^ 1024 \<le> y then PInf else if y \<le> - (2 ^ 1024) then NInf else Finite y)"

definition b64_sign :: "b64 \<Rightarrow> real" where
  "b64_sign x = (case x of Finite a \<Rightarrow> sgn a | PInf \<Rightarrow> 1 | NInf \<Rightarrow> - 1 | NaN \<Rightarrow> 0)"

text \<open>
  Addition, multiplication and division of IEEE 754. They never raise; Python raises on
  a division by zero before dividing, which is \<open>py_truediv\<close>.
\<close>

fun b64_add :: "b64 \<Rightarrow> b64 \<Rightarrow> b64" where
  "b64_add (Finite a) (Finite b) = b64_of_real (a + b)"
| "b64_add NaN _ = NaN"
| "b64_add _ NaN = NaN"
| "b64_add PInf NInf = NaN"
| "b64_add NInf PInf = NaN"
| "b64_add PInf _ = PInf"
| "b64_add _ PInf = PInf"
| "b64_add NInf _ = NInf"
| "b64_add _ NInf = NInf"

definition b64_mul :: "b64 \<Rightarrow> b64 \<Rightarrow> b64" where
  "b64_mul x y =
     (case (x, y) of
        (Finite a, Finite b) \<Rightarrow> b64_of_real (a * b)
      | _ \<Rightarrow>
          if x = NaN \<or> y = NaN \<or> b64_sign x * b64_sign y = 0 then NaN
          else if 0 < b64_sign x * b64_sign y then PInf else NInf)"

definition b64_div :: "b64 \<Rightarrow> b64 \<Rightarrow> b64" where
  "b64_div x y =
     (case (x, y) of
        (Finite a, Finite b) \<Rightarrow>
          if b = 0 then (if a = 0 then NaN else if 0 < a then PInf else NInf)
          else b64_of_real (a / b)
      | (Finite a, NaN) \<Rightarrow> NaN
      | (Finite a, _) \<Rightarrow> Finite 0
      | (NaN, _) \<Rightarrow> NaN
      | (_, Finite b) \<Rightarrow> if 0 \<le> b then x else (if x = PInf then NInf else PInf)
      | (_, _) \<Rightarrow> NaN)"

definition py_truediv :: "b64 \<Rightarrow> b64 \<Rightarrow> py_error + b64" where
  "py_truediv x y = (if y = Finite 0 then Inl ZeroDivisionError else Inr (b64_div x y))"

text \<open>
  The conversion of an integer to a float, as \<^verbatim>\<open>math.sqrt\<close> and the product
  \<^verbatim>\<open>n * math.sqrt(125)\<close> do it: correctly rounded, OverflowError from
  \<open>float_overflow_bound\<close> on, which is where the rounded value would no longer be
  finite (\<open>float_of_int_threshold\<close>).
\<close>

definition float_of_int :: "int \<Rightarrow> py_error + real" where
  "float_of_int x =
     (if float_overflow_bound \<le> \<bar>x\<bar> then Inl OverflowError
      else Inr (nearest_double (real_of_int x)))"

text \<open>
  \<^verbatim>\<open>math.sqrt\<close> at an integer: the conversion, the domain check on the converted
  value, and the correctly rounded square root.
\<close>

definition math_sqrt_b64 :: "int \<Rightarrow> py_error + b64" where
  "math_sqrt_b64 x =
     (case float_of_int x of
        Inl e \<Rightarrow> Inl e
      | Inr r \<Rightarrow>
          if r < 0 then Inl ValueError else Inr (Finite (nearest_double (sqrt r))))"

text \<open>
  \<^verbatim>\<open>round(x, ndigits)\<close>: the exact value of the float is rounded to \<open>ndigits\<close> decimals,
  ties to even, and the decimal result is converted to the nearest float. Infinities
  and NaN round to themselves.
\<close>

definition py_round_b64 :: "b64 \<Rightarrow> nat \<Rightarrow> b64" where
  "py_round_b64 x ndigits =
     (case x of Finite a \<Rightarrow> b64_of_real (py_round a ndigits) | _ \<Rightarrow> x)"

text \<open>
  The function once more, line for line, with these operations. The constants \<open>1\<close> and
  \<open>10\<close> convert exactly.
\<close>

fun score_loop_b64 :: "int list \<Rightarrow> int list \<Rightarrow> nat list \<Rightarrow> b64 \<Rightarrow> py_error + b64" where
  "score_loop_b64 food_scores customer_service_scores [] total_score = Inr total_score"
| "score_loop_b64 food_scores customer_service_scores (i # is) total_score =
     (case py_index food_scores i of
        Inl e \<Rightarrow> Inl e
      | Inr f \<Rightarrow>
          (case py_index customer_service_scores i of
             Inl e \<Rightarrow> Inl e
           | Inr c \<Rightarrow>
               (case math_sqrt_b64 (f ^ 2 * c) of
                  Inl e \<Rightarrow> Inl e
                | Inr score_component \<Rightarrow>
                    score_loop_b64 food_scores customer_service_scores is
                      (b64_add total_score score_component))))"

definition calculate_overall_score_b64 ::
  "string \<Rightarrow> int list \<Rightarrow> int list \<Rightarrow> py_error + (string \<rightharpoonup> b64)" where
  "calculate_overall_score_b64 restaurant_name food_scores customer_service_scores =
     (if food_scores = [] \<or> customer_service_scores = []
         \<or> length food_scores \<noteq> length customer_service_scores
      then Inr [restaurant_name \<mapsto> Finite 0]
      else
        let n = length food_scores in
        case score_loop_b64 food_scores customer_service_scores [0..<n] (Finite 0) of
          Inl e \<Rightarrow> Inl e
        | Inr total_score \<Rightarrow>
            (case math_sqrt_b64 125 of
               Inl e \<Rightarrow> Inl e
             | Inr sqrt_125 \<Rightarrow>
                 (case float_of_int (int n) of
                    Inl e \<Rightarrow> Inl e
                  | Inr n_float \<Rightarrow>
                      (case py_truediv (Finite 1) (b64_mul (Finite n_float) sqrt_125) of
                         Inl e \<Rightarrow> Inl e
                       | Inr factor \<Rightarrow>
                           Inr [restaurant_name \<mapsto>
                                  py_round_b64
                                    (b64_mul (b64_mul total_score factor) (Finite 10)) 3]))))"

text \<open>
  The formula as the specification words it, read in binary64: the components
  \<open>sqrt (food_scores[i]^2 * service_scores[i])\<close> are summed from the left, starting at
  \<open>0.0\<close>; the sum is multiplied by \<open>1 / (N * sqrt 125)\<close>, then by \<open>10\<close>, and rounded to
  three decimals.
\<close>

definition spec_component :: "int \<Rightarrow> int \<Rightarrow> b64" where
  "spec_component f s = Finite (nearest_double (sqrt (nearest_double (real_of_int (f ^ 2 * s)))))"

definition spec_overall_score_b64 :: "int list \<Rightarrow> int list \<Rightarrow> b64" where
  "spec_overall_score_b64 food_scores service_scores =
     py_round_b64
       (b64_mul
          (b64_mul
             (foldl b64_add (Finite 0) (map2 spec_component food_scores service_scores))
             (b64_div (Finite 1)
                (b64_mul (Finite (nearest_double (real (length food_scores))))
                         (Finite (nearest_double (sqrt 125))))))
          (Finite 10))
       3"

subsection \<open>String functions used by fetch_restaurant_data\<close>

text \<open>
  The characters that \<^verbatim>\<open>str.strip()\<close> removes, among the code points below 256:
  tab to carriage return, the four separators \<open>0x1C\<close> to \<open>0x1F\<close>, the space, \<open>0x85\<close>
  and the no-break space \<open>0xA0\<close>.
\<close>

definition is_space :: "char \<Rightarrow> bool" where
  "is_space c =
     (let n = (of_char c :: nat)
      in (9 \<le> n \<and> n \<le> 13) \<or> (28 \<le> n \<and> n \<le> 32) \<or> n = 133 \<or> n = 160)"

definition strip :: "string \<Rightarrow> string" where
  "strip s = rev (dropWhile is_space (rev (dropWhile is_space s)))"

definition startswith :: "string \<Rightarrow> string \<Rightarrow> bool" where
  "startswith s p = (take (length p) s = p)"

text \<open>
  \<^verbatim>\<open>s.split(sep, 1)\<close> for a one-character separator: the text before the first
  separator and the text after it, or the string alone when it holds no separator.
\<close>

definition split_once :: "char \<Rightarrow> string \<Rightarrow> string list" where
  "split_once sep s =
     (case dropWhile (\<lambda>c. c \<noteq> sep) s of
        [] \<Rightarrow> [s]
      | _ # rest \<Rightarrow> [takeWhile (\<lambda>c. c \<noteq> sep) s, rest])"

subsection \<open>fetch_restaurant_data\<close>

text \<open>
  What \<^verbatim>\<open>open("restaurantes.txt")\<close> followed by \<^verbatim>\<open>readlines()\<close> can do: raise
  FileNotFoundError, raise something else (a permission or decoding error, which the
  \<^verbatim>\<open>except FileNotFoundError\<close> clause lets through), or give the list of lines.
\<close>

datatype corpus_file = FileNotFound | Unreadable | Readable "string list"

text \<open>
  The loop over the lines, with the list \<^verbatim>\<open>reviews\<close> as accumulator.
\<close>

fun fetch_loop :: "string \<Rightarrow> string list \<Rightarrow> string list \<Rightarrow> py_error + string list" where
  "fetch_loop restaurant_name [] reviews = Inr reviews"
| "fetch_loop restaurant_name (raw # lines) reviews =
     (let line = strip raw in
      if startswith line (restaurant_name @ ''.'')
      then (case py_index (split_once (CHR ''.'') line) 1 of
              Inl e \<Rightarrow> Inl e
            | Inr part \<Rightarrow> fetch_loop restaurant_name lines (reviews @ [strip part]))
      else fetch_loop restaurant_name lines reviews)"

definition fetch_restaurant_data ::
  "corpus_file \<Rightarrow> string \<Rightarrow> py_error + (string \<rightharpoonup> string list)" where
  "fetch_restaurant_data file restaurant_name =
     (case file of
        FileNotFound \<Rightarrow> Inr [restaurant_name \<mapsto> []]
      | Unreadable \<Rightarrow> Inl ReadError
      | Readable lines \<Rightarrow>
          (case fetch_loop restaurant_name lines [] of
             Inl e \<Rightarrow> Inl e
           | Inr reviews \<Rightarrow> Inr [restaurant_name \<mapsto> reviews]))"

text \<open>
  The attribution rule as the specification words it: a line belongs to the entity when,
  trimmed, it starts with the name followed by a period; its review text is everything
  after the first period of the trimmed line, trimmed again.
\<close>

definition spec_attributed :: "string \<Rightarrow> string \<Rightarrow> bool" where
  "spec_attributed entity_name raw = startswith (strip raw) (entity_name @ ''.'')"

definition spec_review_text :: "string \<Rightarrow> string" where
  "spec_review_text raw = strip (drop 1 (dropWhile (\<lambda>c. c \<noteq> CHR ''.'') (strip raw)))"

definition spec_reviews :: "string \<Rightarrow> string list \<Rightarrow> string list" where
  "spec_reviews entity_name lines =
     map spec_review_text (filter (spec_attributed entity_name) lines)"

subsection \<open>The stage list of main\<close>

datatype agent = entrypoint_agent | data_fetch_agent | review_analysis_agent | score_agent

record chat =
  sender :: agent
  recipient :: agent
  message :: string
  max_turns :: nat

definition chat_sequence :: "string \<Rightarrow> chat list" where
  "chat_sequence user_query =
     [\<lparr>sender = entrypoint_agent, recipient = data_fetch_agent,
       message = ''Recupere as avalia'' @ [CHR 0xE7, CHR 0xF5] @ ''es para: '' @ user_query,
       max_turns = 3\<rparr>,
      \<lparr>sender = data_fetch_agent, recipient = review_analysis_agent,
       message = ''Analise as avalia'' @ [CHR 0xE7, CHR 0xF5]
                   @ ''es e extraia scores de comida e atendimento usando a escala definida.'',
       max_turns = 3\<rparr>,
      \<lparr>sender = review_analysis_agent, recipient = score_agent,
       message = ''Calcule a pontua'' @ [CHR 0xE7, CHR 0xE3]
                   @ ''o final do restaurante usando os scores extra'' @ [CHR 0xED] @ ''dos.'',
       max_turns = 3\<rparr>]"

subsection \<open>The two regular expressions of main\<close>

definition is_digit :: "char \<Rightarrow> bool" where
  "is_digit c = (let n = (of_char c :: nat) in 48 \<le> n \<and> n \<le> 57)"

text \<open>
  \<^verbatim>\<open>(\d+\.\d{3})\<close> tried at the start of \<open>s\<close>. The greedy \<^verbatim>\<open>\d+\<close> takes the whole
  run of digits; giving a digit back never helps, since the next pattern character is
  the point. So there is a match exactly when the run is non-empty and is followed by a
  point and three digits, and group 1 is the run, the point and the three digits.
\<close>

definition match_score_at :: "string \<Rightarrow> string option" where
  "match_score_at s =
     (let digits = takeWhile is_digit s;
          rest = dropWhile is_digit s;
          decimals = take 3 (drop 1 rest)
      in if digits \<noteq> [] \<and> take 1 rest = ''.'' \<and> length decimals = 3
            \<and> list_all is_digit decimals
         then Some (digits @ ''.'' @ decimals)
         else None)"

text \<open>
  \<^verbatim>\<open>re.search\<close>: the match at the leftmost start position that has one.
\<close>

fun search_score :: "string \<Rightarrow> string option" where
  "search_score [] = None"
| "search_score (c # cs) =
     (case match_score_at (c # cs) of
        Some group1 \<Rightarrow> Some group1
      | None \<Rightarrow> search_score cs)"

text \<open>
  \<^verbatim>\<open>(?:do|da) ([^?]+)\?\<close> with \<^verbatim>\<open>re.IGNORECASE\<close>, tried at the start of \<open>s\<close>: the
  letters in either case, a space, then the greedy run of characters other than the
  question mark, which must be non-empty and followed by a question mark. Group 1 is
  the run.
\<close>

definition match_restaurant_at :: "string \<Rightarrow> string option" where
  "match_restaurant_at s =
     (let c0 = take 1 s; c1 = take 1 (drop 1 s); c2 = take 1 (drop 2 s);
          body = drop 3 s;
          run = takeWhile (\<lambda>c. c \<noteq> CHR ''?'') body;
          rest = dropWhile (\<lambda>c. c \<noteq> CHR ''?'') body
      in if (c0 = ''d'' \<or> c0 = ''D'')
            \<and> (c1 = ''o'' \<or> c1 = ''O'' \<or> c1 = ''a'' \<or> c1 = ''A'')
            \<and> c2 = '' '' \<and> run \<noteq> [] \<and> rest \<noteq> []
         then Some run
         else None)"

fun search_restaurant :: "string \<Rightarrow> string option" where
  "search_restaurant [] = None"
| "search_restaurant (c # cs) =
     (case match_restaurant_at (c # cs) of
        Some group1 \<Rightarrow> Some group1
      | None \<Rightarrow> search_restaurant cs)"

subsection \<open>The final answer of main\<close>

text \<open>
  A value found under a key of a message: a string, or something else (\<^verbatim>\<open>None\<close>, which
  is what a message that only calls a tool carries as its content, or any other value
  that is not a \<^verbatim>\<open>str\<close>). A message of a chat history is a dictionary from keys to
  such values. One element of the list that \<^verbatim>\<open>initiate_chats\<close> returns has a chat
  history, where \<open>None\<close> is an object without the attribute \<^verbatim>\<open>chat_history\<close> (or with
  \<^verbatim>\<open>None\<close> there).
\<close>

datatype py_value = PyStr string | PyNonStr

type_synonym chat_message = "string \<rightharpoonup> py_value"

record chat_result =
  chat_history :: "chat_message list option"

text \<open>
  \<^verbatim>\<open>d[key]\<close> on a dictionary: KeyError when the key is absent.
\<close>

definition py_getitem :: "('k \<rightharpoonup> 'v) \<Rightarrow> 'k \<Rightarrow> py_error + 'v" where
  "py_getitem d key = (case d key of None \<Rightarrow> Inl KeyError | Some v \<Rightarrow> Inr v)"

text \<open>
  The formatted string of the branch where both searches match (in Portuguese: the
  average rating of the restaurant is the score) and the notice of the last \<^verbatim>\<open>else\<close>
  branch (the query could not be processed). Their accented letters are written as code
  points: \<open>0xE7\<close> c with cedilla, \<open>0xE3\<close> a with tilde, \<open>0xE9\<close> e with acute, \<open>0xED\<close> i
  with acute, \<open>0xF5\<close> o with tilde.
\<close>

definition answer_sentence :: "string \<Rightarrow> string \<Rightarrow> string" where
  "answer_sentence restaurant score =
     ''A avalia'' @ [CHR 0xE7, CHR 0xE3] @ ''o m'' @ [CHR 0xE9] @ ''dia do '' @ restaurant
       @ '' '' @ [CHR 0xE9] @ '' '' @ score @ ''.''"

definition could_not_process :: string where
  "could_not_process =
     ''N'' @ [CHR 0xE3] @ ''o foi poss'' @ [CHR 0xED]
       @ ''vel processar a consulta adequadamente.''"

text \<open>
  The end of \<^verbatim>\<open>main\<close>, from \<^verbatim>\<open>if result and len(result) > 0\<close> on, as a function of
  the list \<^verbatim>\<open>result\<close> and of the query. Its value is the list of the strings printed,
  one per call of \<^verbatim>\<open>print\<close>, or the exception raised: KeyError from
  \<^verbatim>\<open>chat_history[-1]['content']\<close>, TypeError from the first \<^verbatim>\<open>re.search\<close> when the
  content is not a string. Both are raised before anything is printed.
\<close>

definition main_print :: "chat_result list \<Rightarrow> string \<Rightarrow> py_error + string list" where
  "main_print result user_query =
     (if result \<noteq> [] \<and> length result > 0 then
        let final_chat = last result in
        (case chat_history final_chat of
           None \<Rightarrow> Inr [could_not_process]
         | Some history \<Rightarrow>
             if history \<noteq> [] then
               (case py_getitem (last history) ''content'' of
                  Inl e \<Rightarrow> Inl e
                | Inr PyNonStr \<Rightarrow> Inl TypeError
                | Inr (PyStr last_message) \<Rightarrow>
                    let score_match = search_score last_message;
                        restaurant_match = search_restaurant user_query
                    in (case (score_match, restaurant_match) of
                          (Some score, Some group1) \<Rightarrow>
                            Inr [answer_sentence (strip group1) score]
                        | _ \<Rightarrow> Inr [last_message]))
             else Inr [could_not_process])
      else Inr [])"

text \<open>
  The sentence as the specification words it.
\<close>

definition spec_answer_sentence :: "string \<Rightarrow> string \<Rightarrow> string" where
  "spec_answer_sentence entity score =
     ''The average rating of '' @ entity @ '' is '' @ score @ ''.''"

section \<open>Properties of the score kernel\<close>

subsection \<open>The loop, the rounding and the square root of 125\<close>

lemma float_overflow_bound_large: "125 < float_overflow_bound"
  unfolding float_overflow_bound_def by simp

lemma score_loop_sum:
  assumes "\<forall>i\<in>set is. i < length fs \<and> i < length cs \<and> 0 \<le> (fs ! i) ^ 2 * cs ! i
              \<and> (fs ! i) ^ 2 * cs ! i < float_overflow_bound"
  shows "score_loop fs cs is t = Inr (t + (\<Sum>i\<leftarrow>is. sqrt (real_of_int ((fs ! i) ^ 2 * cs ! i))))"
  using assms
proof (induction "is" arbitrary: t)
  case Nil
  then show ?case by simp
next
  case (Cons i "is")
  then show ?case by (simp add: py_index_def math_sqrt_def add.assoc)
qed

lemma round_half_even_unique:
  assumes "real_of_int k - 1 / 2 < x" and "x < real_of_int k + 1 / 2"
  shows "round_half_even x = k"
proof -
  have "\<lfloor>x\<rfloor> = k \<or> \<lfloor>x\<rfloor> = k - 1" using assms by linarith
  then show ?thesis
  proof
    assume "\<lfloor>x\<rfloor> = k"
    then show ?thesis using assms by (simp add: round_half_even_def Let_def)
  next
    assume "\<lfloor>x\<rfloor> = k - 1"
    then show ?thesis using assms by (simp add: round_half_even_def Let_def)
  qed
qed

lemma round_half_even_of_int: "round_half_even (real_of_int k) = k"
  by (rule round_half_even_unique) simp_all

lemma round_half_even_bounds:
  "\<lfloor>x\<rfloor> \<le> round_half_even x" "round_half_even x \<le> \<lfloor>x\<rfloor> + 1"
  by (simp_all add: round_half_even_def Let_def)

lemma round_half_even_mono:
  assumes "x \<le> y"
  shows "round_half_even x \<le> round_half_even y"
proof (cases "\<lfloor>x\<rfloor> = \<lfloor>y\<rfloor>")
  case True
  then show ?thesis using assms by (auto simp add: round_half_even_def Let_def)
next
  case False
  have "\<lfloor>x\<rfloor> \<le> \<lfloor>y\<rfloor>" using assms by (rule floor_mono)
  with False have "\<lfloor>x\<rfloor> + 1 \<le> \<lfloor>y\<rfloor>" by simp
  then show ?thesis using round_half_even_bounds(2) [of x] round_half_even_bounds(1) [of y] by linarith
qed





lemma calc_defined:
  assumes "fs \<noteq> []" "length fs = length cs"
    and "\<forall>i<length fs. 0 \<le> (fs ! i) ^ 2 * cs ! i \<and> (fs ! i) ^ 2 * cs ! i < float_overflow_bound"
  shows "calculate_overall_score name fs cs = Inr [name \<mapsto> spec_overall_score fs cs]"
proof -
  have "score_loop fs cs [0..<length fs] 0
          = Inr (0 + (\<Sum>i\<leftarrow>[0..<length fs]. sqrt (real_of_int ((fs ! i) ^ 2 * cs ! i))))"
    using assms by (intro score_loop_sum) simp
  also have "(\<Sum>i\<leftarrow>[0..<length fs]. sqrt (real_of_int ((fs ! i) ^ 2 * cs ! i)))
          = (\<Sum>i<length fs. sqrt (real_of_int ((fs ! i) ^ 2 * cs ! i)))"
    by (simp add: sum_list_sum_nth atLeast0LessThan)
  finally show ?thesis
    using assms(1,2) by (auto simp add: calculate_overall_score_def spec_overall_score_def Let_def)
qed

subsection \<open>The fallback\<close>

text \<open>
  C2. For every entity name, if \<open>food_scores\<close> is empty, or \<open>customer_service_scores\<close> is
  empty, or the two lists differ in length, \<open>calculate_overall_score\<close> returns the
  one-entry dictionary that maps the name to \<open>0.000\<close>; it does not raise.
\<close>

theorem calculate_overall_score_fallback:
  assumes "food_scores = [] \<or> customer_service_scores = []
             \<or> length food_scores \<noteq> length customer_service_scores"
  shows "calculate_overall_score restaurant_name food_scores customer_service_scores
           = Inr [restaurant_name \<mapsto> 0]"
  using assms unfolding calculate_overall_score_def by auto

theorem calculate_overall_score_fallback_witness:
  "([]::int list) = [] \<and>
   calculate_overall_score ''Bob's'' [] [] = Inr [''Bob's'' \<mapsto> 0] \<and>
   length [1, 2 :: int] \<noteq> length [1 :: int] \<and>
   calculate_overall_score ''Bob's'' [1, 2] [1] = Inr [''Bob's'' \<mapsto> 0]"
  using calculate_overall_score_fallback [of "[]" "[]" "''Bob's''"]
        calculate_overall_score_fallback [of "[1, 2]" "[1]" "''Bob's''"]
  by simp

subsection \<open>Two facts about the lists [3] and [4]\<close>

lemma sqrt_36: "sqrt 36 = 6"
  by (rule real_sqrt_unique) (simp_all add: power2_eq_square)

lemma products_3_4:
  "\<forall>i<length [3::int]. 0 \<le> ([3::int] ! i) ^ 2 * [4] ! i
      \<and> ([3] ! i) ^ 2 * [4] ! i < float_overflow_bound"
  using float_overflow_bound_large by simp

subsection \<open>The range of the score\<close>

lemma product_in_range:
  assumes "1 \<le> f" "f \<le> 5" "1 \<le> c" "c \<le> (5::int)"
  shows "1 \<le> f ^ 2 * c" "f ^ 2 * c \<le> 125"
proof -
  have f2: "1 \<le> f ^ 2" "f ^ 2 \<le> 25"
    using assms(1,2) power_mono [of 1 f 2] power_mono [of f 5 2] by simp_all
  show "1 \<le> f ^ 2 * c" using f2(1) assms(3) mult_mono [of 1 "f ^ 2" 1 c] by simp
  show "f ^ 2 * c \<le> 125" using f2 assms(3,4) mult_mono [of "f ^ 2" 25 c 5] by simp
qed





lemma in_range_products:
  assumes len: "length fs = length cs"
    and f: "\<forall>x\<in>set fs. 1 \<le> x \<and> x \<le> 5" and c: "\<forall>x\<in>set cs. 1 \<le> x \<and> x \<le> 5"
  shows "\<forall>i<length fs. 0 \<le> (fs ! i) ^ 2 * cs ! i \<and> (fs ! i) ^ 2 * cs ! i < float_overflow_bound"
proof (intro allI impI)
  fix i assume "i < length fs"
  then have "fs ! i \<in> set fs" "cs ! i \<in> set cs" using len by simp_all
  then have "1 \<le> (fs ! i) ^ 2 * cs ! i" "(fs ! i) ^ 2 * cs ! i \<le> 125"
    using f c product_in_range [of "fs ! i" "cs ! i"] by blast+
  then show "0 \<le> (fs ! i) ^ 2 * cs ! i \<and> (fs ! i) ^ 2 * cs ! i < float_overflow_bound"
    using float_overflow_bound_large by linarith
qed



subsection \<open>When the score kernel returns\<close>

lemma score_loop_Inr_good:
  assumes "score_loop fs cs is t = Inr v"
    and "\<forall>i\<in>set is. i < length fs \<and> i < length cs"
  shows "\<forall>i\<in>set is. 0 \<le> (fs ! i) ^ 2 * cs ! i \<and> (fs ! i) ^ 2 * cs ! i < float_overflow_bound"
  using assms
proof (induction "is" arbitrary: t)
  case Nil
  then show ?case by simp
next
  case (Cons i "is")
  from Cons.prems have good: "0 \<le> (fs ! i) ^ 2 * cs ! i \<and> (fs ! i) ^ 2 * cs ! i < float_overflow_bound"
    by (auto simp add: py_index_def math_sqrt_def split: if_splits)
  with Cons.prems have "score_loop fs cs is (t + sqrt (real_of_int ((fs ! i) ^ 2 * cs ! i))) = Inr v"
    by (simp add: py_index_def math_sqrt_def)
  with Cons.IH Cons.prems(2) good show ?case by simp
qed

lemma calc_returns_iff:
  "(\<exists>d. calculate_overall_score name fs cs = Inr d) \<longleftrightarrow>
     (fs = [] \<or> cs = [] \<or> length fs \<noteq> length cs
      \<or> (\<forall>i<length fs. 0 \<le> (fs ! i) ^ 2 * cs ! i \<and> (fs ! i) ^ 2 * cs ! i < float_overflow_bound))"
proof (cases "fs = [] \<or> cs = [] \<or> length fs \<noteq> length cs")
  case True
  then show ?thesis by (auto simp add: calculate_overall_score_def)
next
  case False
  then have ne: "fs \<noteq> []" and len: "length fs = length cs" by simp_all
  show ?thesis
  proof
    assume "\<exists>d. calculate_overall_score name fs cs = Inr d"
    then obtain v where "score_loop fs cs [0..<length fs] 0 = Inr v"
      using False by (auto simp add: calculate_overall_score_def Let_def split: sum.splits)
    then have "\<forall>i\<in>set [0..<length fs]. 0 \<le> (fs ! i) ^ 2 * cs ! i
                  \<and> (fs ! i) ^ 2 * cs ! i < float_overflow_bound"
      by (rule score_loop_Inr_good) (simp add: len)
    then show "fs = [] \<or> cs = [] \<or> length fs \<noteq> length cs
      \<or> (\<forall>i<length fs. 0 \<le> (fs ! i) ^ 2 * cs ! i \<and> (fs ! i) ^ 2 * cs ! i < float_overflow_bound)"
      by simp
  next
    assume "fs = [] \<or> cs = [] \<or> length fs \<noteq> length cs
      \<or> (\<forall>i<length fs. 0 \<le> (fs ! i) ^ 2 * cs ! i \<and> (fs ! i) ^ 2 * cs ! i < float_overflow_bound)"
    with False have "\<forall>i<length fs. 0 \<le> (fs ! i) ^ 2 * cs ! i
         \<and> (fs ! i) ^ 2 * cs ! i < float_overflow_bound" by blast
    from calc_defined [OF ne len this]
    show "\<exists>d. calculate_overall_score name fs cs = Inr d" by blast
  qed
qed

subsection \<open>Rounding to binary64\<close>

lemma nearest_double_eval:
  assumes k: "k \<le> 1074"
    and lo: "2 ^ 52 \<le> \<bar>x\<bar> * 2 ^ k" and hi: "\<bar>x\<bar> * 2 ^ k < 2 ^ 53"
    and m: "round_half_even (x * 2 ^ k) = m"
  shows "nearest_double x = real_of_int m / 2 ^ k"
proof -
  have xpos: "0 < \<bar>x\<bar>" using lo by (cases "x = 0") simp_all
  have p: "(2::real) powr real_of_int (- int k) = 1 / 2 ^ k"
    by (simp add: powr_minus powr_realpow inverse_eq_divide)
  have e52: "(2::real) powr real_of_int (52 - int k) = 2 ^ 52 / 2 ^ k"
    using powr_add [of "2::real" "52" "real_of_int (- int k)"] p by simp
  have e53: "(2::real) powr real_of_int (52 - int k + 1) = 2 ^ 53 / 2 ^ k"
    using powr_add [of "2::real" "53" "real_of_int (- int k)"] p by simp
  have "2 ^ 52 / 2 ^ k \<le> \<bar>x\<bar>" using lo by (simp add: pos_divide_le_eq)
  then have a: "2 powr real_of_int (52 - int k) \<le> \<bar>x\<bar>" unfolding e52 .
  have "\<bar>x\<bar> < 2 ^ 53 / 2 ^ k" using hi by (simp add: pos_less_divide_eq)
  then have b: "\<bar>x\<bar> < 2 powr real_of_int (52 - int k + 1)" unfolding e53 .
  from a b have "2 powr real_of_int (52 - int k) \<le> \<bar>x\<bar>
      \<and> \<bar>x\<bar> < 2 powr real_of_int (52 - int k + 1)" ..
  then have "\<lfloor>log 2 \<bar>x\<bar>\<rfloor> = 52 - int k"
    using xpos by (simp add: floor_log_eq_powr_iff)
  then have e: "max (\<lfloor>log 2 \<bar>x\<bar>\<rfloor> - 52) (- 1074) = - int k"
    using k by simp
  show ?thesis
    unfolding nearest_double_def e Let_def p using m by simp
qed

lemma nearest_double_nonneg:
  assumes "0 \<le> x"
  shows "0 \<le> nearest_double x"
proof -
  have "0 \<le> x / 2 powr real_of_int e" for e using assms by simp
  then have "0 \<le> round_half_even (x / 2 powr real_of_int e)" for e
    using round_half_even_mono [of 0 "x / 2 powr real_of_int e"] round_half_even_of_int [of 0]
    by simp
  then show ?thesis by (simp add: nearest_double_def Let_def)
qed

lemma nearest_double_ge_1:
  assumes "1 \<le> x"
  shows "1 \<le> nearest_double x"
proof -
  define L where "L = \<lfloor>log 2 \<bar>x\<bar>\<rfloor>"
  have xpos: "0 < x" and ax: "\<bar>x\<bar> = x" using assms by simp_all
  have "0 \<le> log 2 x" using assms by simp
  then have L0: "0 \<le> L" unfolding L_def ax by simp
  then have e: "max (L - 52) (- 1074) = L - 52" by simp
  have "real_of_int L \<le> log 2 x" unfolding L_def ax by simp
  then have Lx: "2 powr real_of_int L \<le> x"
    using xpos by (simp add: powr_le_iff)
  have split: "(2::real) powr real_of_int L = 2 ^ 52 * 2 powr real_of_int (L - 52)"
    using powr_add [of "2::real" 52 "real_of_int (L - 52)"] by simp
  have pos: "0 < (2::real) powr real_of_int (L - 52)" by simp
  have "2 ^ 52 \<le> x / 2 powr real_of_int (L - 52)"
    using Lx split pos by (simp add: field_simps)
  then have "round_half_even (2 ^ 52) \<le> round_half_even (x / 2 powr real_of_int (L - 52))"
    by (rule round_half_even_mono)
  moreover have "round_half_even (2 ^ 52) = 2 ^ 52"
    using round_half_even_of_int [of "2 ^ 52"] by simp
  ultimately have "(2::real) ^ 52 \<le> real_of_int (round_half_even (x / 2 powr real_of_int (L - 52)))"
    by (metis of_int_le_iff of_int_numeral of_int_power)
  then have A: "2 ^ 52 * 2 powr real_of_int (L - 52)
      \<le> real_of_int (round_half_even (x / 2 powr real_of_int (L - 52))) * 2 powr real_of_int (L - 52)"
    using pos by (intro mult_right_mono) simp_all
  have B: "1 \<le> (2::real) powr real_of_int L" using L0 by (simp add: ge_one_powr_ge_zero)
  have "1 \<le> real_of_int (round_half_even (x / 2 powr real_of_int (L - 52))) * 2 powr real_of_int (L - 52)"
    using A B split by linarith
  then show ?thesis
    unfolding nearest_double_def Let_def L_def [symmetric] e .
qed

lemma b64_of_real_eval:
  assumes "k \<le> 1074"
    and "2 ^ 52 \<le> \<bar>x\<bar> * 2 ^ k" and "\<bar>x\<bar> * 2 ^ k < 2 ^ 53"
    and "round_half_even (x * 2 ^ k) = m" and "\<bar>m\<bar> \<le> 2 ^ 53"
  shows "b64_of_real x = Finite (real_of_int m / 2 ^ k)"
proof -
  have nd: "nearest_double x = real_of_int m / 2 ^ k"
    using assms(1-4) by (rule nearest_double_eval)
  have one: "(1::real) \<le> 2 ^ k" by simp
  have "m \<le> 2 ^ 53" "- (2 ^ 53) \<le> m" using assms(5) by linarith+
  then have m: "real_of_int m \<le> 2 ^ 53" "- (2 ^ 53) \<le> real_of_int m"
    by (metis of_int_le_iff of_int_numeral of_int_power, metis of_int_le_iff of_int_minus of_int_numeral of_int_power)
  have "(2::real) ^ 53 * 1 \<le> 2 ^ 53 * 2 ^ k" using one by (intro mult_left_mono) simp_all
  then have big: "(2::real) ^ 53 \<le> 2 ^ 53 * 2 ^ k" by simp
  have "real_of_int m \<le> 2 ^ 53 * 2 ^ k" using m(1) big by linarith
  then have up: "real_of_int m / 2 ^ k \<le> 2 ^ 53" by (simp add: pos_divide_le_eq)
  have "- (2 ^ 53 * 2 ^ k) \<le> real_of_int m" using m(2) big by linarith
  then have down: "- (2 ^ 53) \<le> real_of_int m / 2 ^ k" by (simp add: pos_le_divide_eq)
  have "(2::real) ^ 53 < 2 ^ 1024" by simp
  then have "\<not> 2 ^ 1024 \<le> real_of_int m / 2 ^ k" "\<not> real_of_int m / 2 ^ k \<le> - (2 ^ 1024)"
    using up down by linarith+
  then show ?thesis by (simp add: b64_of_real_def nd)
qed

lemma b64_of_real_exact:
  assumes "k \<le> 1074" and "2 ^ 52 \<le> \<bar>m\<bar>" and "\<bar>m\<bar> < 2 ^ 53"
  shows "b64_of_real (real_of_int m / 2 ^ k) = Finite (real_of_int m / 2 ^ k)"
proof (rule b64_of_real_eval [OF assms(1)])
  have "\<bar>real_of_int m / 2 ^ k\<bar> * 2 ^ k = \<bar>real_of_int m / 2 ^ k * 2 ^ k\<bar>"
    by (simp add: abs_mult)
  then have eq: "\<bar>real_of_int m / 2 ^ k\<bar> * 2 ^ k = real_of_int \<bar>m\<bar>" by simp
  show "2 ^ 52 \<le> \<bar>real_of_int m / 2 ^ k\<bar> * 2 ^ k"
    unfolding eq using assms(2) by (metis of_int_le_iff of_int_numeral of_int_power)
  show "\<bar>real_of_int m / 2 ^ k\<bar> * 2 ^ k < 2 ^ 53"
    unfolding eq using assms(3) by (metis of_int_less_iff of_int_numeral of_int_power)
  show "round_half_even (real_of_int m / 2 ^ k * 2 ^ k) = m"
    by (simp add: round_half_even_of_int)
  show "\<bar>m\<bar> \<le> 2 ^ 53" using assms(3) by simp
qed

text \<open>
  The bound of the conversion of integers is the point from which rounding overflows.
\<close>

lemma round_half_even_le:
  assumes "x < real_of_int k + 1 / 2"
  shows "round_half_even x \<le> k"
proof (cases "\<lfloor>x\<rfloor> = k")
  case True
  then have "x - real_of_int \<lfloor>x\<rfloor> < 1 / 2" using assms by simp
  then show ?thesis using True by (simp add: round_half_even_def Let_def)
next
  case False
  have "\<lfloor>x\<rfloor> \<le> k" using assms by linarith
  with False have "\<lfloor>x\<rfloor> + 1 \<le> k" by simp
  then show ?thesis using round_half_even_bounds(2) [of x] by linarith
qed

lemma nearest_double_binade:
  assumes "1 \<le> x" and L: "L = \<lfloor>log 2 x\<rfloor>"
  shows "nearest_double x = real_of_int (round_half_even (x / 2 powr real_of_int (L - 52)))
           * 2 powr real_of_int (L - 52)"
    and "2 ^ 52 \<le> x / 2 powr real_of_int (L - 52)"
    and "x / 2 powr real_of_int (L - 52) < 2 ^ 53"
    and "0 \<le> L"
proof -
  have xpos: "0 < x" and ax: "\<bar>x\<bar> = x" using assms by simp_all
  have "0 \<le> log 2 x" using assms by simp
  then show L0: "0 \<le> L" unfolding L by simp
  then have e: "max (\<lfloor>log 2 \<bar>x\<bar>\<rfloor> - 52) (- 1074) = L - 52" unfolding ax L by simp
  show "nearest_double x = real_of_int (round_half_even (x / 2 powr real_of_int (L - 52)))
           * 2 powr real_of_int (L - 52)"
    unfolding nearest_double_def Let_def e ..
  have "real_of_int L \<le> log 2 x" "log 2 x < real_of_int L + 1" unfolding L by linarith+
  then have Lx: "2 powr real_of_int L \<le> x" "x < 2 powr (real_of_int L + 1)"
    using xpos by (simp_all add: powr_le_iff less_powr_iff)
  have split: "(2::real) powr real_of_int L = 2 ^ 52 * 2 powr real_of_int (L - 52)"
    using powr_add [of "2::real" 52 "real_of_int (L - 52)"] by simp
  have split': "(2::real) powr (real_of_int L + 1) = 2 ^ 53 * 2 powr real_of_int (L - 52)"
    using powr_add [of "2::real" 53 "real_of_int (L - 52)"] by (simp add: add.commute)
  have pos: "0 < (2::real) powr real_of_int (L - 52)" by simp
  show "2 ^ 52 \<le> x / 2 powr real_of_int (L - 52)"
    using Lx(1) split pos by (simp add: field_simps)
  show "x / 2 powr real_of_int (L - 52) < 2 ^ 53"
    using Lx(2) split' pos by (simp add: field_simps)
qed

lemma round_half_even_tie:
  assumes "x = real_of_int k + 1 / 2"
  shows "round_half_even x = (if even k then k else k + 1)"
proof -
  have "\<lfloor>x\<rfloor> = k" using assms by linarith
  then show ?thesis using assms by (simp add: round_half_even_def Let_def)
qed

lemma nearest_double_below_bound:
  assumes "1 \<le> x" and "x < 2 ^ 1024 - 2 ^ 970"
  shows "nearest_double x < 2 ^ 1024"
proof -
  define L where "L = \<lfloor>log 2 x\<rfloor>"
  define P where "P = (2::real) powr real_of_int (L - 52)"
  define y where "y = x / P"
  note b = nearest_double_binade [OF assms(1) L_def, folded P_def y_def]
  have Ppos: "0 < P" by (simp add: P_def)
  have "log 2 x < 1024"
    using assms by (simp add: log_less_iff)
  then have L1023: "L \<le> 1023" unfolding L_def by linarith
  show ?thesis
  proof (cases "L = 1023")
    case True
    then have P: "P = 2 ^ 971" by (simp add: P_def)
    have "y < 2 ^ 53 - 1 / 2" using assms(2) by (simp add: y_def P field_simps)
    then have "y < real_of_int (2 ^ 53 - 1) + 1 / 2" by simp
    then have "round_half_even y \<le> 2 ^ 53 - 1" by (rule round_half_even_le)
    then have "real_of_int (round_half_even y) \<le> real_of_int (2 ^ 53 - 1)"
      by (simp only: of_int_le_iff)
    then have "real_of_int (round_half_even y) \<le> 2 ^ 53 - 1" by simp
    then have "real_of_int (round_half_even y) * 2 ^ 971 \<le> (2 ^ 53 - 1) * 2 ^ 971"
      by (intro mult_right_mono) simp_all
    also have "\<dots> < (2::real) ^ 1024" by simp
    finally show ?thesis unfolding b(1) P .
  next
    case False
    with L1023 have L1022: "L \<le> 1022" by simp
    have "y < real_of_int (2 ^ 53) + 1 / 2" using b(3) by simp
    then have "round_half_even y \<le> 2 ^ 53" by (rule round_half_even_le)
    then have "real_of_int (round_half_even y) \<le> real_of_int (2 ^ 53)"
      by (simp only: of_int_le_iff)
    then have "real_of_int (round_half_even y) \<le> 2 ^ 53" by simp
    then have A: "real_of_int (round_half_even y) * P \<le> 2 ^ 53 * P"
      using Ppos by (intro mult_right_mono) simp_all
    have "(2::real) ^ 53 * P = 2 powr real_of_int (L + 1)"
      unfolding P_def using powr_add [of "2::real" 53 "real_of_int (L - 52)"] by (simp add: add.commute)
    also have "\<dots> \<le> 2 powr 1023" using L1022 by (intro powr_mono) simp_all
    also have "\<dots> < (2::real) ^ 1024" by simp
    finally have "2 ^ 53 * P < (2::real) ^ 1024" .
    with A show ?thesis unfolding b(1) by linarith
  qed
qed

lemma nearest_double_from_bound:
  assumes "2 ^ 1024 - 2 ^ 970 \<le> x"
  shows "2 ^ 1024 \<le> nearest_double x"
proof -
  have "(1::real) \<le> 2 ^ 1024 - 2 ^ 970" by simp
  then have x1: "1 \<le> x" using assms by linarith
  define L where "L = \<lfloor>log 2 x\<rfloor>"
  define P where "P = (2::real) powr real_of_int (L - 52)"
  define y where "y = x / P"
  note b = nearest_double_binade [OF x1 L_def, folded P_def y_def]
  have Ppos: "0 < P" by (simp add: P_def)
  have "(2::real) ^ 1023 \<le> x" using assms by simp
  then have "1023 \<le> log 2 x" using x1 by (simp add: le_log_iff)
  then have L1023: "1023 \<le> L" unfolding L_def by linarith
  show ?thesis
  proof (cases "L = 1023")
    case True
    then have P: "P = 2 ^ 971" by (simp add: P_def)
    have "2 ^ 53 - 1 / 2 \<le> y" using assms by (simp add: y_def P field_simps)
    then have "round_half_even (2 ^ 53 - 1 / 2) \<le> round_half_even y"
      by (rule round_half_even_mono)
    moreover have "round_half_even (2 ^ 53 - 1 / 2) = 2 ^ 53"
      using round_half_even_tie [of "2 ^ 53 - 1 / 2" "2 ^ 53 - 1"] by simp
    ultimately have "real_of_int (2 ^ 53) \<le> real_of_int (round_half_even y)"
      by (simp only: of_int_le_iff)
    then have "(2::real) ^ 53 \<le> real_of_int (round_half_even y)" by simp
    then have "2 ^ 53 * 2 ^ 971 \<le> real_of_int (round_half_even y) * 2 ^ 971"
      by (intro mult_right_mono) simp_all
    then show ?thesis unfolding b(1) P by simp
  next
    case False
    with L1023 have L1024: "1024 \<le> L" by simp
    have "round_half_even (2 ^ 52) \<le> round_half_even y"
      using b(2) by (rule round_half_even_mono)
    moreover have "round_half_even (2 ^ 52) = 2 ^ 52"
      using round_half_even_of_int [of "2 ^ 52"] by simp
    ultimately have "real_of_int (2 ^ 52) \<le> real_of_int (round_half_even y)"
      by (simp only: of_int_le_iff)
    then have "(2::real) ^ 52 \<le> real_of_int (round_half_even y)" by simp
    then have A: "2 ^ 52 * P \<le> real_of_int (round_half_even y) * P"
      using Ppos by (intro mult_right_mono) simp_all
    have "(2::real) ^ 1024 = 2 powr 1024" by simp
    also have "\<dots> \<le> 2 powr real_of_int L" using L1024 by (intro powr_mono) simp_all
    also have "\<dots> = 2 ^ 52 * P"
      unfolding P_def using powr_add [of "2::real" 52 "real_of_int (L - 52)"] by simp
    finally have "(2::real) ^ 1024 \<le> 2 ^ 52 * P" .
    with A show ?thesis unfolding b(1) by linarith
  qed
qed

lemma float_of_int_threshold:
  assumes "0 \<le> n"
  shows "float_overflow_bound \<le> n \<longleftrightarrow> b64_of_real (real_of_int n) = PInf"
proof (cases "n = 0")
  case True
  have "nearest_double 0 = 0" by (simp add: nearest_double_def round_half_even_def)
  with True show ?thesis by (simp add: b64_of_real_def float_overflow_bound_def)
next
  case False
  with assms have n1: "1 \<le> real_of_int n" by linarith
  have bound: "real_of_int float_overflow_bound = 2 ^ 1024 - 2 ^ 970"
    by (simp add: float_overflow_bound_def)
  show ?thesis
  proof (cases "float_overflow_bound \<le> n")
    case True
    then have "real_of_int float_overflow_bound \<le> real_of_int n" by linarith
    then have "2 ^ 1024 \<le> nearest_double (real_of_int n)"
      unfolding bound by (rule nearest_double_from_bound)
    with True show ?thesis by (simp add: b64_of_real_def)
  next
    case small: False
    then have "real_of_int n < real_of_int float_overflow_bound" by linarith
    then have "nearest_double (real_of_int n) < 2 ^ 1024"
      unfolding bound by (rule nearest_double_below_bound [OF n1])
    with small show ?thesis by (simp add: b64_of_real_def Let_def)
  qed
qed

subsection \<open>The loop and the division in binary64\<close>

lemma math_sqrt_b64_in_range:
  assumes "0 \<le> p" "p < float_overflow_bound"
  shows "math_sqrt_b64 p = Inr (Finite (nearest_double (sqrt (nearest_double (real_of_int p)))))"
proof -
  have "\<not> nearest_double (real_of_int p) < 0"
    using nearest_double_nonneg [of "real_of_int p"] assms(1) by simp
  then show ?thesis using assms by (simp add: math_sqrt_b64_def float_of_int_def)
qed

lemma score_loop_b64_fold:
  assumes "\<forall>i\<in>set is. i < length fs \<and> i < length cs \<and> 0 \<le> (fs ! i) ^ 2 * cs ! i
              \<and> (fs ! i) ^ 2 * cs ! i < float_overflow_bound"
  shows "score_loop_b64 fs cs is t
           = Inr (foldl b64_add t (map (\<lambda>i. spec_component (fs ! i) (cs ! i)) is))"
  using assms
proof (induction "is" arbitrary: t)
  case Nil
  then show ?case by simp
next
  case (Cons i "is")
  then have "math_sqrt_b64 ((fs ! i) ^ 2 * cs ! i) = Inr (spec_component (fs ! i) (cs ! i))"
    by (simp add: math_sqrt_b64_in_range spec_component_def)
  with Cons show ?case by (simp add: py_index_def)
qed

lemma map_index_map2:
  assumes "length xs = length ys"
  shows "map (\<lambda>i. f (xs ! i) (ys ! i)) [0..<length xs] = map2 f xs ys"
  using assms by (intro nth_equalityI) simp_all

lemma nearest_double_125: "nearest_double 125 = 125"
proof -
  have "round_half_even (125 * 2 ^ 46) = 125 * 2 ^ 46"
    using round_half_even_of_int [of "125 * 2 ^ 46"] by simp
  then show ?thesis
    using nearest_double_eval [of 46 125 "125 * 2 ^ 46"] by simp
qed

lemma math_sqrt_b64_125: "math_sqrt_b64 125 = Inr (Finite (nearest_double (sqrt 125)))"
  using math_sqrt_b64_in_range [of 125] float_overflow_bound_large
  by (simp add: nearest_double_125)

lemma divisor_not_zero:
  assumes "1 \<le> n"
  shows "b64_mul (Finite (nearest_double (real n))) (Finite (nearest_double (sqrt 125))) \<noteq> Finite 0"
proof -
  have a: "1 \<le> nearest_double (real n)" using assms by (intro nearest_double_ge_1) simp
  have "1 \<le> sqrt 125" by simp
  then have b: "1 \<le> nearest_double (sqrt 125)" by (rule nearest_double_ge_1)
  have "1 * 1 \<le> nearest_double (real n) * nearest_double (sqrt 125)"
    using a b by (intro mult_mono) simp_all
  then have "1 \<le> nearest_double (nearest_double (real n) * nearest_double (sqrt 125))"
    by (intro nearest_double_ge_1) simp
  then show ?thesis by (auto simp add: b64_mul_def b64_of_real_def Let_def)
qed

lemma calc_b64_defined:
  assumes ne: "fs \<noteq> []" and len: "length fs = length cs"
    and range: "\<forall>i<length fs. 0 \<le> (fs ! i) ^ 2 * cs ! i \<and> (fs ! i) ^ 2 * cs ! i < float_overflow_bound"
    and n: "int (length fs) < float_overflow_bound"
  shows "calculate_overall_score_b64 name fs cs = Inr [name \<mapsto> spec_overall_score_b64 fs cs]"
proof -
  have loop: "score_loop_b64 fs cs [0..<length fs] (Finite 0)
          = Inr (foldl b64_add (Finite 0) (map2 spec_component fs cs))"
  proof -
    have valid: "\<forall>i\<in>set [0..<length fs]. i < length fs \<and> i < length cs
        \<and> 0 \<le> (fs ! i) ^ 2 * cs ! i \<and> (fs ! i) ^ 2 * cs ! i < float_overflow_bound"
      using range len by simp
    show ?thesis
      unfolding score_loop_b64_fold [OF valid] map_index_map2 [OF len] ..
  qed
  have conv: "float_of_int (int (length fs)) = Inr (nearest_double (real (length fs)))"
    using n by (simp add: float_of_int_def)
  have "1 \<le> length fs" using ne by (cases fs) simp_all
  then have div: "py_truediv (Finite 1)
            (b64_mul (Finite (nearest_double (real (length fs)))) (Finite (nearest_double (sqrt 125))))
        = Inr (b64_div (Finite 1)
            (b64_mul (Finite (nearest_double (real (length fs)))) (Finite (nearest_double (sqrt 125)))))"
    using divisor_not_zero [of "length fs"] by (simp add: py_truediv_def)
  have guard: "\<not> (fs = [] \<or> cs = [] \<or> length fs \<noteq> length cs)"
    using ne len by auto
  show ?thesis
    unfolding calculate_overall_score_b64_def spec_overall_score_b64_def
    by (simp only: guard if_False Let_def loop math_sqrt_b64_125 conv div sum.case)
qed

subsection \<open>The two readings raise and return alike\<close>

text \<open>
  The exact reading and the binary64 reading of \<open>calculate_overall_score\<close> return on
  the same inputs and raise the same exception on the others: rounding changes the
  value returned, never whether a value is returned.
\<close>

lemma nearest_double_le_minus_1:
  assumes "x \<le> - 1"
  shows "nearest_double x \<le> - 1"
proof -
  define L where "L = \<lfloor>log 2 \<bar>x\<bar>\<rfloor>"
  have ax: "\<bar>x\<bar> = - x" and xpos: "0 < - x" using assms by simp_all
  have "0 \<le> log 2 (- x)" using assms by simp
  then have L0: "0 \<le> L" unfolding L_def ax by simp
  then have e: "max (L - 52) (- 1074) = L - 52" by simp
  have "real_of_int L \<le> log 2 (- x)" unfolding L_def ax by simp
  then have Lx: "2 powr real_of_int L \<le> - x"
    using xpos by (simp add: powr_le_iff)
  have split: "(2::real) powr real_of_int L = 2 ^ 52 * 2 powr real_of_int (L - 52)"
    using powr_add [of "2::real" 52 "real_of_int (L - 52)"] by simp
  have pos: "0 < (2::real) powr real_of_int (L - 52)" by simp
  have "2 ^ 52 \<le> (- x) / 2 powr real_of_int (L - 52)"
    using Lx split pos by (simp add: field_simps)
  then have "x / 2 powr real_of_int (L - 52) \<le> - (2 ^ 52)" by simp
  then have "round_half_even (x / 2 powr real_of_int (L - 52)) \<le> round_half_even (- (2 ^ 52))"
    by (rule round_half_even_mono)
  moreover have "round_half_even (- (2 ^ 52)) = - (2 ^ 52)"
    using round_half_even_of_int [of "- (2 ^ 52)"] by simp
  ultimately have "real_of_int (round_half_even (x / 2 powr real_of_int (L - 52))) \<le> - (2 ^ 52)"
    by (metis of_int_le_iff of_int_minus of_int_numeral of_int_power)
  then have A: "real_of_int (round_half_even (x / 2 powr real_of_int (L - 52))) * 2 powr real_of_int (L - 52)
      \<le> - (2 ^ 52) * 2 powr real_of_int (L - 52)"
    using pos by (intro mult_right_mono) simp_all
  have B: "1 \<le> (2::real) powr real_of_int L" using L0 by (simp add: ge_one_powr_ge_zero)
  have "real_of_int (round_half_even (x / 2 powr real_of_int (L - 52))) * 2 powr real_of_int (L - 52) \<le> - 1"
    using A B split by linarith
  then show ?thesis
    unfolding nearest_double_def Let_def L_def [symmetric] e .
qed

lemma math_sqrt_b64_returns_iff:
  "(\<exists>v. math_sqrt_b64 p = Inr v) \<longleftrightarrow> 0 \<le> p \<and> p < float_overflow_bound"
proof (cases "0 \<le> p \<and> p < float_overflow_bound")
  case True
  then show ?thesis by (simp add: math_sqrt_b64_in_range)
next
  case False
  show ?thesis
  proof (cases "float_overflow_bound \<le> \<bar>p\<bar>")
    case True
    with False show ?thesis by (auto simp add: math_sqrt_b64_def float_of_int_def)
  next
    case small: False
    with \<open>\<not> (0 \<le> p \<and> p < float_overflow_bound)\<close> have "p \<le> - 1" by linarith
    then have "real_of_int p \<le> - 1" by linarith
    then have "nearest_double (real_of_int p) < 0"
      using nearest_double_le_minus_1 [of "real_of_int p"] by linarith
    with small False show ?thesis by (auto simp add: math_sqrt_b64_def float_of_int_def)
  qed
qed

lemma math_sqrt_returns_iff:
  "(\<exists>v. math_sqrt p = Inr v) \<longleftrightarrow> 0 \<le> p \<and> p < float_overflow_bound"
  by (auto simp add: math_sqrt_def)

lemma score_loop_b64_Inr_good:
  assumes "score_loop_b64 fs cs is t = Inr v"
    and "\<forall>i\<in>set is. i < length fs \<and> i < length cs"
  shows "\<forall>i\<in>set is. 0 \<le> (fs ! i) ^ 2 * cs ! i \<and> (fs ! i) ^ 2 * cs ! i < float_overflow_bound"
  using assms
proof (induction "is" arbitrary: t)
  case Nil
  then show ?case by simp
next
  case (Cons i "is")
  from Cons.prems obtain c where c: "math_sqrt_b64 ((fs ! i) ^ 2 * cs ! i) = Inr c"
    and rest: "score_loop_b64 fs cs is (b64_add t c) = Inr v"
    by (auto simp add: py_index_def split: sum.splits)
  from c have good: "0 \<le> (fs ! i) ^ 2 * cs ! i \<and> (fs ! i) ^ 2 * cs ! i < float_overflow_bound"
    using math_sqrt_b64_returns_iff [of "(fs ! i) ^ 2 * cs ! i"] by blast
  with Cons.IH [OF rest] Cons.prems(2) show ?case by simp
qed

lemma calc_b64_returns_iff:
  assumes n: "int (length fs) < float_overflow_bound"
  shows "(\<exists>d. calculate_overall_score_b64 name fs cs = Inr d) \<longleftrightarrow>
     (fs = [] \<or> cs = [] \<or> length fs \<noteq> length cs
      \<or> (\<forall>i<length fs. 0 \<le> (fs ! i) ^ 2 * cs ! i \<and> (fs ! i) ^ 2 * cs ! i < float_overflow_bound))"
proof (cases "fs = [] \<or> cs = [] \<or> length fs \<noteq> length cs")
  case True
  then show ?thesis by (auto simp add: calculate_overall_score_b64_def)
next
  case False
  then have ne: "fs \<noteq> []" and len: "length fs = length cs" by simp_all
  show ?thesis
  proof
    assume "\<exists>d. calculate_overall_score_b64 name fs cs = Inr d"
    then obtain v where "score_loop_b64 fs cs [0..<length fs] (Finite 0) = Inr v"
      using False by (auto simp add: calculate_overall_score_b64_def Let_def split: sum.splits)
    then have "\<forall>i\<in>set [0..<length fs]. 0 \<le> (fs ! i) ^ 2 * cs ! i
                  \<and> (fs ! i) ^ 2 * cs ! i < float_overflow_bound"
      by (rule score_loop_b64_Inr_good) (simp add: len)
    then show "fs = [] \<or> cs = [] \<or> length fs \<noteq> length cs
      \<or> (\<forall>i<length fs. 0 \<le> (fs ! i) ^ 2 * cs ! i \<and> (fs ! i) ^ 2 * cs ! i < float_overflow_bound)"
      by simp
  next
    assume "fs = [] \<or> cs = [] \<or> length fs \<noteq> length cs
      \<or> (\<forall>i<length fs. 0 \<le> (fs ! i) ^ 2 * cs ! i \<and> (fs ! i) ^ 2 * cs ! i < float_overflow_bound)"
    with False have "\<forall>i<length fs. 0 \<le> (fs ! i) ^ 2 * cs ! i
         \<and> (fs ! i) ^ 2 * cs ! i < float_overflow_bound" by blast
    from calc_b64_defined [OF ne len this n]
    show "\<exists>d. calculate_overall_score_b64 name fs cs = Inr d" by blast
  qed
qed

lemma readings_agree_on_returning:
  assumes "int (length fs) < float_overflow_bound"
  shows "(\<exists>d. calculate_overall_score_b64 name fs cs = Inr d)
           \<longleftrightarrow> (\<exists>d. calculate_overall_score name fs cs = Inr d)"
  unfolding calc_b64_returns_iff [OF assms] calc_returns_iff ..

lemma math_sqrt_same_error: "math_sqrt_b64 p = Inl e \<longleftrightarrow> math_sqrt p = Inl e"
proof (cases "float_overflow_bound \<le> \<bar>p\<bar>")
  case True
  then show ?thesis by (auto simp add: math_sqrt_b64_def math_sqrt_def float_of_int_def)
next
  case small: False
  show ?thesis
  proof (cases "p < 0")
    case True
    then have "real_of_int p \<le> - 1" by linarith
    then have "nearest_double (real_of_int p) < 0"
      using nearest_double_le_minus_1 [of "real_of_int p"] by linarith
    with small True show ?thesis
      by (auto simp add: math_sqrt_b64_def math_sqrt_def float_of_int_def)
  next
    case False
    then have "\<not> nearest_double (real_of_int p) < 0"
      using nearest_double_nonneg [of "real_of_int p"] by simp
    with small False show ?thesis
      by (auto simp add: math_sqrt_b64_def math_sqrt_def float_of_int_def)
  qed
qed

lemma score_loop_same_error:
  "score_loop_b64 fs cs is t = Inl e \<longleftrightarrow> score_loop fs cs is t' = Inl e"
proof (induction "is" arbitrary: t t')
  case Nil
  then show ?case by simp
next
  case (Cons i "is")
  show ?case
  proof (cases "i < length fs \<and> i < length cs")
    case False
    then show ?thesis by (auto simp add: py_index_def)
  next
    case True
    show ?thesis
    proof (cases "math_sqrt_b64 ((fs ! i) ^ 2 * cs ! i)")
      case (Inl e')
      then have "math_sqrt ((fs ! i) ^ 2 * cs ! i) = Inl e'"
        by (simp add: math_sqrt_same_error)
      with Inl True show ?thesis by (simp add: py_index_def)
    next
      case (Inr c)
      then have "\<exists>v. math_sqrt ((fs ! i) ^ 2 * cs ! i) = Inr v"
        using math_sqrt_b64_returns_iff [of "(fs ! i) ^ 2 * cs ! i"]
          math_sqrt_returns_iff [of "(fs ! i) ^ 2 * cs ! i"] by blast
      then obtain c' where "math_sqrt ((fs ! i) ^ 2 * cs ! i) = Inr c'" by blast
      with Inr True Cons.IH [of "b64_add t c" "t' + c'"] show ?thesis
        by (simp add: py_index_def)
    qed
  qed
qed

lemma readings_agree_on_raising:
  assumes n: "int (length fs) < float_overflow_bound"
  shows "calculate_overall_score_b64 name fs cs = Inl e
           \<longleftrightarrow> calculate_overall_score name fs cs = Inl e"
proof (cases "fs = [] \<or> cs = [] \<or> length fs \<noteq> length cs")
  case True
  then show ?thesis
    by (auto simp add: calculate_overall_score_b64_def calculate_overall_score_def)
next
  case False
  show ?thesis
  proof (cases "\<exists>d. calculate_overall_score name fs cs = Inr d")
    case True
    moreover from True have "\<exists>d. calculate_overall_score_b64 name fs cs = Inr d"
      using readings_agree_on_returning [OF n] by blast
    ultimately show ?thesis by auto
  next
    case no: False
    then obtain e0 where e0: "score_loop fs cs [0..<length fs] 0 = Inl e0"
      using False by (cases "score_loop fs cs [0..<length fs] 0")
        (auto simp add: calculate_overall_score_def Let_def)
    then have "score_loop_b64 fs cs [0..<length fs] (Finite 0) = Inl e0"
      using score_loop_same_error [of fs cs "[0..<length fs]" "Finite 0" e0 0] by simp
    with e0 False show ?thesis
      by (simp add: calculate_overall_score_b64_def calculate_overall_score_def Let_def)
  qed
qed

subsection \<open>The lists [3] and [4] in binary64\<close>

lemma nearest_double_36: "nearest_double 36 = 36"
proof -
  have "round_half_even (36 * 2 ^ 47) = 36 * 2 ^ 47"
    using round_half_even_of_int [of "36 * 2 ^ 47"] by simp
  then show ?thesis using nearest_double_eval [of 47 36 "36 * 2 ^ 47"] by simp
qed

lemma nearest_double_6: "nearest_double 6 = 6"
proof -
  have "round_half_even (6 * 2 ^ 50) = 6 * 2 ^ 50"
    using round_half_even_of_int [of "6 * 2 ^ 50"] by simp
  then show ?thesis using nearest_double_eval [of 50 6 "6 * 2 ^ 50"] by simp
qed

lemma nearest_double_1: "nearest_double 1 = 1"
proof -
  have "round_half_even (1 * 2 ^ 52) = 2 ^ 52"
    using round_half_even_of_int [of "2 ^ 52"] by simp
  then show ?thesis using nearest_double_eval [of 52 1 "2 ^ 52"] by simp
qed

lemma b64_of_real_6: "b64_of_real 6 = Finite 6"
  using b64_of_real_exact [of 50 "6 * 2 ^ 50"] by simp

lemma spec_component_3_4: "spec_component 3 4 = Finite 6"
  by (simp add: spec_component_def nearest_double_36 sqrt_36 nearest_double_6)

lemma sqrt_125_double: "nearest_double (sqrt 125) = 6293971818901970 / 2 ^ 49"
proof -
  have lo: "(2 * 6293971818901970 - 1) / 2 ^ 50 < sqrt 125"
    by (rule real_less_rsqrt) (simp add: power2_eq_square)
  have hi: "sqrt 125 < (2 * 6293971818901970 + 1) / 2 ^ 50"
    by (rule real_less_lsqrt) (simp_all add: power2_eq_square)
  have "round_half_even (sqrt 125 * 2 ^ 49) = 6293971818901970"
    using lo hi by (intro round_half_even_unique) (simp_all add: field_simps)
  moreover have "2 ^ 52 \<le> \<bar>sqrt 125\<bar> * 2 ^ 49" using lo by (simp add: field_simps)
  moreover have "\<bar>sqrt 125\<bar> * 2 ^ 49 < 2 ^ 53" using hi by (simp add: field_simps)
  ultimately show ?thesis
    using nearest_double_eval [of 49 "sqrt 125" 6293971818901970] by simp
qed

lemma divisor_1: "b64_mul (Finite 1) (Finite (6293971818901970 / 2 ^ 49)) = Finite (6293971818901970 / 2 ^ 49)"
  using b64_of_real_exact [of 49 6293971818901970] by (simp add: b64_mul_def)

lemma factor_1:
  "b64_div (Finite 1) (Finite (6293971818901970 / 2 ^ 49)) = Finite (6445027142555617 / 2 ^ 56)"
proof -
  have "round_half_even (1 / (6293971818901970 / 2 ^ 49) * 2 ^ 56) = 6445027142555617"
    by (rule round_half_even_unique) simp_all
  then have "b64_of_real (1 / (6293971818901970 / 2 ^ 49)) = Finite (6445027142555617 / 2 ^ 56)"
    using b64_of_real_eval [of 56 "1 / (6293971818901970 / 2 ^ 49)" 6445027142555617] by simp
  then show ?thesis by (simp add: b64_div_def)
qed

lemma product_6:
  "b64_mul (Finite 6) (Finite (6445027142555617 / 2 ^ 56)) = Finite (4833770356916713 / 2 ^ 53)"
proof -
  have "round_half_even (6 * (6445027142555617 / 2 ^ 56) * 2 ^ 53) = 4833770356916713"
    by (rule round_half_even_unique) simp_all
  then have "b64_of_real (6 * (6445027142555617 / 2 ^ 56)) = Finite (4833770356916713 / 2 ^ 53)"
    using b64_of_real_eval [of 53 "6 * (6445027142555617 / 2 ^ 56)" 4833770356916713] by simp
  then show ?thesis by (simp add: b64_mul_def)
qed

lemma product_10:
  "b64_mul (Finite (4833770356916713 / 2 ^ 53)) (Finite 10) = Finite (6042212946145891 / 2 ^ 50)"
proof -
  have "round_half_even (4833770356916713 / 2 ^ 53 * 10 * 2 ^ 50) = 6042212946145891"
    by (rule round_half_even_unique) simp_all
  then have "b64_of_real (4833770356916713 / 2 ^ 53 * 10) = Finite (6042212946145891 / 2 ^ 50)"
    using b64_of_real_eval [of 50 "4833770356916713 / 2 ^ 53 * 10" 6042212946145891] by simp
  then show ?thesis by (simp add: b64_mul_def)
qed

lemma round_3: "py_round (6042212946145891 / 2 ^ 50) 3 = 5367 / 1000"
proof -
  have "round_half_even (6042212946145891 / 2 ^ 50 * 10 ^ 3) = 5367"
    by (rule round_half_even_unique) simp_all
  then show ?thesis by (simp add: py_round_def)
qed

lemma literal_5_367: "b64_of_real (5367 / 1000) = Finite (6042704800024363 / 2 ^ 50)"
proof -
  have "round_half_even (5367 / 1000 * 2 ^ 50) = 6042704800024363"
    by (rule round_half_even_unique) simp_all
  then show ?thesis
    using b64_of_real_eval [of 50 "5367 / 1000" 6042704800024363] by simp
qed

lemma spec_overall_score_b64_3_4: "spec_overall_score_b64 [3] [4] = b64_of_real (5367 / 1000)"
proof -
  have comps: "foldl b64_add (Finite 0) (map2 spec_component [3] [4]) = Finite 6"
    by (simp add: spec_component_3_4 b64_of_real_6)
  have n: "nearest_double (real (length [3::int])) = 1"
    by (simp add: nearest_double_1)
  show ?thesis
    unfolding spec_overall_score_b64_def comps n sqrt_125_double divisor_1 factor_1
      product_6 product_10 py_round_b64_def
    by (simp only: b64.case round_3)
qed

lemma products_3_4_b64:
  "\<forall>i<length [3::int]. 0 \<le> ([3::int] ! i) ^ 2 * [4] ! i
      \<and> ([3] ! i) ^ 2 * [4] ! i < float_overflow_bound"
  using float_overflow_bound_large by simp

lemma length_1_converts: "int (length [3::int]) < float_overflow_bound"
  using float_overflow_bound_large by simp

lemma nearest_double_minus_12: "nearest_double (- 12) = - 12"
proof -
  have "round_half_even (- 12 * 2 ^ 49) = - (12 * 2 ^ 49)"
    using round_half_even_of_int [of "- (12 * 2 ^ 49)"] by simp
  then show ?thesis using nearest_double_eval [of 49 "- 12" "- (12 * 2 ^ 49)"] by simp
qed

subsection \<open>A near-tie: one food score 1, thirty-one food scores 2, service scores 5\<close>

text \<open>
  The exact value of the formula at these lists is \<open>63 / 16 = 3.9375\<close>, half-way
  between two multiples of \<open>0.001\<close>. In binary64 the sum of the components and the
  products fall just below it, and the result is \<open>3.937\<close>; the exact reading rounds
  the tie to the even neighbour \<open>3.938\<close>.
\<close>

lemma nearest_double_5: "nearest_double 5 = 5"
proof -
  have "round_half_even (5 * 2 ^ 50) = 5 * 2 ^ 50"
    using round_half_even_of_int [of "5 * 2 ^ 50"] by simp
  then show ?thesis using nearest_double_eval [of 50 5 "5 * 2 ^ 50"] by simp
qed

lemma nearest_double_20: "nearest_double 20 = 20"
proof -
  have "round_half_even (20 * 2 ^ 48) = 20 * 2 ^ 48"
    using round_half_even_of_int [of "20 * 2 ^ 48"] by simp
  then show ?thesis using nearest_double_eval [of 48 20 "20 * 2 ^ 48"] by simp
qed

lemma nearest_double_32: "nearest_double 32 = 32"
proof -
  have "round_half_even (32 * 2 ^ 47) = 32 * 2 ^ 47"
    using round_half_even_of_int [of "32 * 2 ^ 47"] by simp
  then show ?thesis using nearest_double_eval [of 47 32 "32 * 2 ^ 47"] by simp
qed

lemma sqrt_5_double: "nearest_double (sqrt 5) = 5035177455121576 / 2 ^ 51"
proof -
  have lo: "(2 * 5035177455121576 - 1) / 2 ^ 52 < sqrt 5"
    by (rule real_less_rsqrt) (simp add: power2_eq_square)
  have hi: "sqrt 5 < (2 * 5035177455121576 + 1) / 2 ^ 52"
    by (rule real_less_lsqrt) (simp_all add: power2_eq_square)
  have "round_half_even (sqrt 5 * 2 ^ 51) = 5035177455121576"
    using lo hi by (intro round_half_even_unique) (simp_all add: field_simps)
  moreover have "2 ^ 52 \<le> \<bar>sqrt 5\<bar> * 2 ^ 51" using lo by (simp add: field_simps)
  moreover have "\<bar>sqrt 5\<bar> * 2 ^ 51 < 2 ^ 53" using hi by (simp add: field_simps)
  ultimately show ?thesis
    using nearest_double_eval [of 51 "sqrt 5" 5035177455121576] by simp
qed

lemma sqrt_20_double: "nearest_double (sqrt 20) = 5035177455121576 / 2 ^ 50"
proof -
  have lo: "(2 * 5035177455121576 - 1) / 2 ^ 51 < sqrt 20"
    by (rule real_less_rsqrt) (simp add: power2_eq_square)
  have hi: "sqrt 20 < (2 * 5035177455121576 + 1) / 2 ^ 51"
    by (rule real_less_lsqrt) (simp_all add: power2_eq_square)
  have "round_half_even (sqrt 20 * 2 ^ 50) = 5035177455121576"
    using lo hi by (intro round_half_even_unique) (simp_all add: field_simps)
  moreover have "2 ^ 52 \<le> \<bar>sqrt 20\<bar> * 2 ^ 50" using lo by (simp add: field_simps)
  moreover have "\<bar>sqrt 20\<bar> * 2 ^ 50 < 2 ^ 53" using hi by (simp add: field_simps)
  ultimately show ?thesis
    using nearest_double_eval [of 50 "sqrt 20" 5035177455121576] by simp
qed

lemma spec_component_1_5: "spec_component 1 5 = Finite (5035177455121576 / 2 ^ 51)"
  by (simp add: spec_component_def nearest_double_5 sqrt_5_double)

lemma spec_component_2_5: "spec_component 2 5 = Finite (5035177455121576 / 2 ^ 50)"
  by (simp add: spec_component_def nearest_double_20 sqrt_20_double)

lemma tie_sum_1:
  "b64_add (Finite 0) (Finite (5035177455121576 / 2 ^ 51)) = Finite (5035177455121576 / 2 ^ 51)"
proof -
  have "round_half_even ((0 + 5035177455121576 / 2 ^ 51) * 2 ^ 51) = 5035177455121576"
    by (rule round_half_even_unique) simp_all
  then have "b64_of_real (0 + 5035177455121576 / 2 ^ 51) = Finite (5035177455121576 / 2 ^ 51)"
    using b64_of_real_eval [of 51 "0 + 5035177455121576 / 2 ^ 51" 5035177455121576] by simp
  then show ?thesis by (simp)
qed

lemma tie_sum_2:
  "b64_add (Finite (5035177455121576 / 2 ^ 51)) (Finite (5035177455121576 / 2 ^ 50)) = Finite (7552766182682364 / 2 ^ 50)"
proof -
  have "round_half_even ((5035177455121576 / 2 ^ 51 + 5035177455121576 / 2 ^ 50) * 2 ^ 50) = 7552766182682364"
    by (rule round_half_even_unique) simp_all
  then have "b64_of_real (5035177455121576 / 2 ^ 51 + 5035177455121576 / 2 ^ 50) = Finite (7552766182682364 / 2 ^ 50)"
    using b64_of_real_eval [of 50 "5035177455121576 / 2 ^ 51 + 5035177455121576 / 2 ^ 50" 7552766182682364] by simp
  then show ?thesis by (simp)
qed

lemma tie_sum_3:
  "b64_add (Finite (7552766182682364 / 2 ^ 50)) (Finite (5035177455121576 / 2 ^ 50)) = Finite (6293971818901970 / 2 ^ 49)"
proof -
  have "round_half_even ((7552766182682364 / 2 ^ 50 + 5035177455121576 / 2 ^ 50) * 2 ^ 49) = 6293971818901970"
    by (rule round_half_even_unique) simp_all
  then have "b64_of_real (7552766182682364 / 2 ^ 50 + 5035177455121576 / 2 ^ 50) = Finite (6293971818901970 / 2 ^ 49)"
    using b64_of_real_eval [of 49 "7552766182682364 / 2 ^ 50 + 5035177455121576 / 2 ^ 50" 6293971818901970] by simp
  then show ?thesis by (simp)
qed

lemma tie_sum_4:
  "b64_add (Finite (6293971818901970 / 2 ^ 49)) (Finite (5035177455121576 / 2 ^ 50)) = Finite (8811560546462758 / 2 ^ 49)"
proof -
  have "round_half_even ((6293971818901970 / 2 ^ 49 + 5035177455121576 / 2 ^ 50) * 2 ^ 49) = 8811560546462758"
    by (rule round_half_even_unique) simp_all
  then have "b64_of_real (6293971818901970 / 2 ^ 49 + 5035177455121576 / 2 ^ 50) = Finite (8811560546462758 / 2 ^ 49)"
    using b64_of_real_eval [of 49 "6293971818901970 / 2 ^ 49 + 5035177455121576 / 2 ^ 50" 8811560546462758] by simp
  then show ?thesis by (simp)
qed

lemma tie_sum_5:
  "b64_add (Finite (8811560546462758 / 2 ^ 49)) (Finite (5035177455121576 / 2 ^ 50)) = Finite (5664574637011773 / 2 ^ 48)"
proof -
  have "round_half_even ((8811560546462758 / 2 ^ 49 + 5035177455121576 / 2 ^ 50) * 2 ^ 48) = 5664574637011773"
    by (rule round_half_even_unique) simp_all
  then have "b64_of_real (8811560546462758 / 2 ^ 49 + 5035177455121576 / 2 ^ 50) = Finite (5664574637011773 / 2 ^ 48)"
    using b64_of_real_eval [of 48 "8811560546462758 / 2 ^ 49 + 5035177455121576 / 2 ^ 50" 5664574637011773] by simp
  then show ?thesis by (simp)
qed

lemma tie_sum_6:
  "b64_add (Finite (5664574637011773 / 2 ^ 48)) (Finite (5035177455121576 / 2 ^ 50)) = Finite (6923369000792167 / 2 ^ 48)"
proof -
  have "round_half_even ((5664574637011773 / 2 ^ 48 + 5035177455121576 / 2 ^ 50) * 2 ^ 48) = 6923369000792167"
    by (rule round_half_even_unique) simp_all
  then have "b64_of_real (5664574637011773 / 2 ^ 48 + 5035177455121576 / 2 ^ 50) = Finite (6923369000792167 / 2 ^ 48)"
    using b64_of_real_eval [of 48 "5664574637011773 / 2 ^ 48 + 5035177455121576 / 2 ^ 50" 6923369000792167] by simp
  then show ?thesis by (simp)
qed

lemma tie_sum_7:
  "b64_add (Finite (6923369000792167 / 2 ^ 48)) (Finite (5035177455121576 / 2 ^ 50)) = Finite (8182163364572561 / 2 ^ 48)"
proof -
  have "round_half_even ((6923369000792167 / 2 ^ 48 + 5035177455121576 / 2 ^ 50) * 2 ^ 48) = 8182163364572561"
    by (rule round_half_even_unique) simp_all
  then have "b64_of_real (6923369000792167 / 2 ^ 48 + 5035177455121576 / 2 ^ 50) = Finite (8182163364572561 / 2 ^ 48)"
    using b64_of_real_eval [of 48 "6923369000792167 / 2 ^ 48 + 5035177455121576 / 2 ^ 50" 8182163364572561] by simp
  then show ?thesis by (simp)
qed

lemma tie_sum_8:
  "b64_add (Finite (8182163364572561 / 2 ^ 48)) (Finite (5035177455121576 / 2 ^ 50)) = Finite (4720478864176478 / 2 ^ 47)"
proof -
  have "round_half_even ((8182163364572561 / 2 ^ 48 + 5035177455121576 / 2 ^ 50) * 2 ^ 47) = 4720478864176478"
    using round_half_even_tie [of "(8182163364572561 / 2 ^ 48 + 5035177455121576 / 2 ^ 50) * 2 ^ 47" 4720478864176477] by simp
  then have "b64_of_real (8182163364572561 / 2 ^ 48 + 5035177455121576 / 2 ^ 50) = Finite (4720478864176478 / 2 ^ 47)"
    using b64_of_real_eval [of 47 "8182163364572561 / 2 ^ 48 + 5035177455121576 / 2 ^ 50" 4720478864176478] by simp
  then show ?thesis by (simp)
qed

lemma tie_sum_9:
  "b64_add (Finite (4720478864176478 / 2 ^ 47)) (Finite (5035177455121576 / 2 ^ 50)) = Finite (5349876046066675 / 2 ^ 47)"
proof -
  have "round_half_even ((4720478864176478 / 2 ^ 47 + 5035177455121576 / 2 ^ 50) * 2 ^ 47) = 5349876046066675"
    by (rule round_half_even_unique) simp_all
  then have "b64_of_real (4720478864176478 / 2 ^ 47 + 5035177455121576 / 2 ^ 50) = Finite (5349876046066675 / 2 ^ 47)"
    using b64_of_real_eval [of 47 "4720478864176478 / 2 ^ 47 + 5035177455121576 / 2 ^ 50" 5349876046066675] by simp
  then show ?thesis by (simp)
qed

lemma tie_sum_10:
  "b64_add (Finite (5349876046066675 / 2 ^ 47)) (Finite (5035177455121576 / 2 ^ 50)) = Finite (5979273227956872 / 2 ^ 47)"
proof -
  have "round_half_even ((5349876046066675 / 2 ^ 47 + 5035177455121576 / 2 ^ 50) * 2 ^ 47) = 5979273227956872"
    by (rule round_half_even_unique) simp_all
  then have "b64_of_real (5349876046066675 / 2 ^ 47 + 5035177455121576 / 2 ^ 50) = Finite (5979273227956872 / 2 ^ 47)"
    using b64_of_real_eval [of 47 "5349876046066675 / 2 ^ 47 + 5035177455121576 / 2 ^ 50" 5979273227956872] by simp
  then show ?thesis by (simp)
qed

lemma tie_sum_11:
  "b64_add (Finite (5979273227956872 / 2 ^ 47)) (Finite (5035177455121576 / 2 ^ 50)) = Finite (6608670409847069 / 2 ^ 47)"
proof -
  have "round_half_even ((5979273227956872 / 2 ^ 47 + 5035177455121576 / 2 ^ 50) * 2 ^ 47) = 6608670409847069"
    by (rule round_half_even_unique) simp_all
  then have "b64_of_real (5979273227956872 / 2 ^ 47 + 5035177455121576 / 2 ^ 50) = Finite (6608670409847069 / 2 ^ 47)"
    using b64_of_real_eval [of 47 "5979273227956872 / 2 ^ 47 + 5035177455121576 / 2 ^ 50" 6608670409847069] by simp
  then show ?thesis by (simp)
qed

lemma tie_sum_12:
  "b64_add (Finite (6608670409847069 / 2 ^ 47)) (Finite (5035177455121576 / 2 ^ 50)) = Finite (7238067591737266 / 2 ^ 47)"
proof -
  have "round_half_even ((6608670409847069 / 2 ^ 47 + 5035177455121576 / 2 ^ 50) * 2 ^ 47) = 7238067591737266"
    by (rule round_half_even_unique) simp_all
  then have "b64_of_real (6608670409847069 / 2 ^ 47 + 5035177455121576 / 2 ^ 50) = Finite (7238067591737266 / 2 ^ 47)"
    using b64_of_real_eval [of 47 "6608670409847069 / 2 ^ 47 + 5035177455121576 / 2 ^ 50" 7238067591737266] by simp
  then show ?thesis by (simp)
qed

lemma tie_sum_13:
  "b64_add (Finite (7238067591737266 / 2 ^ 47)) (Finite (5035177455121576 / 2 ^ 50)) = Finite (7867464773627463 / 2 ^ 47)"
proof -
  have "round_half_even ((7238067591737266 / 2 ^ 47 + 5035177455121576 / 2 ^ 50) * 2 ^ 47) = 7867464773627463"
    by (rule round_half_even_unique) simp_all
  then have "b64_of_real (7238067591737266 / 2 ^ 47 + 5035177455121576 / 2 ^ 50) = Finite (7867464773627463 / 2 ^ 47)"
    using b64_of_real_eval [of 47 "7238067591737266 / 2 ^ 47 + 5035177455121576 / 2 ^ 50" 7867464773627463] by simp
  then show ?thesis by (simp)
qed

lemma tie_sum_14:
  "b64_add (Finite (7867464773627463 / 2 ^ 47)) (Finite (5035177455121576 / 2 ^ 50)) = Finite (8496861955517660 / 2 ^ 47)"
proof -
  have "round_half_even ((7867464773627463 / 2 ^ 47 + 5035177455121576 / 2 ^ 50) * 2 ^ 47) = 8496861955517660"
    by (rule round_half_even_unique) simp_all
  then have "b64_of_real (7867464773627463 / 2 ^ 47 + 5035177455121576 / 2 ^ 50) = Finite (8496861955517660 / 2 ^ 47)"
    using b64_of_real_eval [of 47 "7867464773627463 / 2 ^ 47 + 5035177455121576 / 2 ^ 50" 8496861955517660] by simp
  then show ?thesis by (simp)
qed

lemma tie_sum_15:
  "b64_add (Finite (8496861955517660 / 2 ^ 47)) (Finite (5035177455121576 / 2 ^ 50)) = Finite (4563129568703928 / 2 ^ 46)"
proof -
  have "round_half_even ((8496861955517660 / 2 ^ 47 + 5035177455121576 / 2 ^ 50) * 2 ^ 46) = 4563129568703928"
    using round_half_even_tie [of "(8496861955517660 / 2 ^ 47 + 5035177455121576 / 2 ^ 50) * 2 ^ 46" 4563129568703928] by simp
  then have "b64_of_real (8496861955517660 / 2 ^ 47 + 5035177455121576 / 2 ^ 50) = Finite (4563129568703928 / 2 ^ 46)"
    using b64_of_real_eval [of 46 "8496861955517660 / 2 ^ 47 + 5035177455121576 / 2 ^ 50" 4563129568703928] by simp
  then show ?thesis by (simp)
qed

lemma tie_sum_16:
  "b64_add (Finite (4563129568703928 / 2 ^ 46)) (Finite (5035177455121576 / 2 ^ 50)) = Finite (4877828159649026 / 2 ^ 46)"
proof -
  have "round_half_even ((4563129568703928 / 2 ^ 46 + 5035177455121576 / 2 ^ 50) * 2 ^ 46) = 4877828159649026"
    using round_half_even_tie [of "(4563129568703928 / 2 ^ 46 + 5035177455121576 / 2 ^ 50) * 2 ^ 46" 4877828159649026] by simp
  then have "b64_of_real (4563129568703928 / 2 ^ 46 + 5035177455121576 / 2 ^ 50) = Finite (4877828159649026 / 2 ^ 46)"
    using b64_of_real_eval [of 46 "4563129568703928 / 2 ^ 46 + 5035177455121576 / 2 ^ 50" 4877828159649026] by simp
  then show ?thesis by (simp)
qed

lemma tie_sum_17:
  "b64_add (Finite (4877828159649026 / 2 ^ 46)) (Finite (5035177455121576 / 2 ^ 50)) = Finite (5192526750594124 / 2 ^ 46)"
proof -
  have "round_half_even ((4877828159649026 / 2 ^ 46 + 5035177455121576 / 2 ^ 50) * 2 ^ 46) = 5192526750594124"
    using round_half_even_tie [of "(4877828159649026 / 2 ^ 46 + 5035177455121576 / 2 ^ 50) * 2 ^ 46" 5192526750594124] by simp
  then have "b64_of_real (4877828159649026 / 2 ^ 46 + 5035177455121576 / 2 ^ 50) = Finite (5192526750594124 / 2 ^ 46)"
    using b64_of_real_eval [of 46 "4877828159649026 / 2 ^ 46 + 5035177455121576 / 2 ^ 50" 5192526750594124] by simp
  then show ?thesis by (simp)
qed

lemma tie_sum_18:
  "b64_add (Finite (5192526750594124 / 2 ^ 46)) (Finite (5035177455121576 / 2 ^ 50)) = Finite (5507225341539222 / 2 ^ 46)"
proof -
  have "round_half_even ((5192526750594124 / 2 ^ 46 + 5035177455121576 / 2 ^ 50) * 2 ^ 46) = 5507225341539222"
    using round_half_even_tie [of "(5192526750594124 / 2 ^ 46 + 5035177455121576 / 2 ^ 50) * 2 ^ 46" 5507225341539222] by simp
  then have "b64_of_real (5192526750594124 / 2 ^ 46 + 5035177455121576 / 2 ^ 50) = Finite (5507225341539222 / 2 ^ 46)"
    using b64_of_real_eval [of 46 "5192526750594124 / 2 ^ 46 + 5035177455121576 / 2 ^ 50" 5507225341539222] by simp
  then show ?thesis by (simp)
qed

lemma tie_sum_19:
  "b64_add (Finite (5507225341539222 / 2 ^ 46)) (Finite (5035177455121576 / 2 ^ 50)) = Finite (5821923932484320 / 2 ^ 46)"
proof -
  have "round_half_even ((5507225341539222 / 2 ^ 46 + 5035177455121576 / 2 ^ 50) * 2 ^ 46) = 5821923932484320"
    using round_half_even_tie [of "(5507225341539222 / 2 ^ 46 + 5035177455121576 / 2 ^ 50) * 2 ^ 46" 5821923932484320] by simp
  then have "b64_of_real (5507225341539222 / 2 ^ 46 + 5035177455121576 / 2 ^ 50) = Finite (5821923932484320 / 2 ^ 46)"
    using b64_of_real_eval [of 46 "5507225341539222 / 2 ^ 46 + 5035177455121576 / 2 ^ 50" 5821923932484320] by simp
  then show ?thesis by (simp)
qed

lemma tie_sum_20:
  "b64_add (Finite (5821923932484320 / 2 ^ 46)) (Finite (5035177455121576 / 2 ^ 50)) = Finite (6136622523429418 / 2 ^ 46)"
proof -
  have "round_half_even ((5821923932484320 / 2 ^ 46 + 5035177455121576 / 2 ^ 50) * 2 ^ 46) = 6136622523429418"
    using round_half_even_tie [of "(5821923932484320 / 2 ^ 46 + 5035177455121576 / 2 ^ 50) * 2 ^ 46" 6136622523429418] by simp
  then have "b64_of_real (5821923932484320 / 2 ^ 46 + 5035177455121576 / 2 ^ 50) = Finite (6136622523429418 / 2 ^ 46)"
    using b64_of_real_eval [of 46 "5821923932484320 / 2 ^ 46 + 5035177455121576 / 2 ^ 50" 6136622523429418] by simp
  then show ?thesis by (simp)
qed

lemma tie_sum_21:
  "b64_add (Finite (6136622523429418 / 2 ^ 46)) (Finite (5035177455121576 / 2 ^ 50)) = Finite (6451321114374516 / 2 ^ 46)"
proof -
  have "round_half_even ((6136622523429418 / 2 ^ 46 + 5035177455121576 / 2 ^ 50) * 2 ^ 46) = 6451321114374516"
    using round_half_even_tie [of "(6136622523429418 / 2 ^ 46 + 5035177455121576 / 2 ^ 50) * 2 ^ 46" 6451321114374516] by simp
  then have "b64_of_real (6136622523429418 / 2 ^ 46 + 5035177455121576 / 2 ^ 50) = Finite (6451321114374516 / 2 ^ 46)"
    using b64_of_real_eval [of 46 "6136622523429418 / 2 ^ 46 + 5035177455121576 / 2 ^ 50" 6451321114374516] by simp
  then show ?thesis by (simp)
qed

lemma tie_sum_22:
  "b64_add (Finite (6451321114374516 / 2 ^ 46)) (Finite (5035177455121576 / 2 ^ 50)) = Finite (6766019705319614 / 2 ^ 46)"
proof -
  have "round_half_even ((6451321114374516 / 2 ^ 46 + 5035177455121576 / 2 ^ 50) * 2 ^ 46) = 6766019705319614"
    using round_half_even_tie [of "(6451321114374516 / 2 ^ 46 + 5035177455121576 / 2 ^ 50) * 2 ^ 46" 6766019705319614] by simp
  then have "b64_of_real (6451321114374516 / 2 ^ 46 + 5035177455121576 / 2 ^ 50) = Finite (6766019705319614 / 2 ^ 46)"
    using b64_of_real_eval [of 46 "6451321114374516 / 2 ^ 46 + 5035177455121576 / 2 ^ 50" 6766019705319614] by simp
  then show ?thesis by (simp)
qed

lemma tie_sum_23:
  "b64_add (Finite (6766019705319614 / 2 ^ 46)) (Finite (5035177455121576 / 2 ^ 50)) = Finite (7080718296264712 / 2 ^ 46)"
proof -
  have "round_half_even ((6766019705319614 / 2 ^ 46 + 5035177455121576 / 2 ^ 50) * 2 ^ 46) = 7080718296264712"
    using round_half_even_tie [of "(6766019705319614 / 2 ^ 46 + 5035177455121576 / 2 ^ 50) * 2 ^ 46" 7080718296264712] by simp
  then have "b64_of_real (6766019705319614 / 2 ^ 46 + 5035177455121576 / 2 ^ 50) = Finite (7080718296264712 / 2 ^ 46)"
    using b64_of_real_eval [of 46 "6766019705319614 / 2 ^ 46 + 5035177455121576 / 2 ^ 50" 7080718296264712] by simp
  then show ?thesis by (simp)
qed

lemma tie_sum_24:
  "b64_add (Finite (7080718296264712 / 2 ^ 46)) (Finite (5035177455121576 / 2 ^ 50)) = Finite (7395416887209810 / 2 ^ 46)"
proof -
  have "round_half_even ((7080718296264712 / 2 ^ 46 + 5035177455121576 / 2 ^ 50) * 2 ^ 46) = 7395416887209810"
    using round_half_even_tie [of "(7080718296264712 / 2 ^ 46 + 5035177455121576 / 2 ^ 50) * 2 ^ 46" 7395416887209810] by simp
  then have "b64_of_real (7080718296264712 / 2 ^ 46 + 5035177455121576 / 2 ^ 50) = Finite (7395416887209810 / 2 ^ 46)"
    using b64_of_real_eval [of 46 "7080718296264712 / 2 ^ 46 + 5035177455121576 / 2 ^ 50" 7395416887209810] by simp
  then show ?thesis by (simp)
qed

lemma tie_sum_25:
  "b64_add (Finite (7395416887209810 / 2 ^ 46)) (Finite (5035177455121576 / 2 ^ 50)) = Finite (7710115478154908 / 2 ^ 46)"
proof -
  have "round_half_even ((7395416887209810 / 2 ^ 46 + 5035177455121576 / 2 ^ 50) * 2 ^ 46) = 7710115478154908"
    using round_half_even_tie [of "(7395416887209810 / 2 ^ 46 + 5035177455121576 / 2 ^ 50) * 2 ^ 46" 7710115478154908] by simp
  then have "b64_of_real (7395416887209810 / 2 ^ 46 + 5035177455121576 / 2 ^ 50) = Finite (7710115478154908 / 2 ^ 46)"
    using b64_of_real_eval [of 46 "7395416887209810 / 2 ^ 46 + 5035177455121576 / 2 ^ 50" 7710115478154908] by simp
  then show ?thesis by (simp)
qed

lemma tie_sum_26:
  "b64_add (Finite (7710115478154908 / 2 ^ 46)) (Finite (5035177455121576 / 2 ^ 50)) = Finite (8024814069100006 / 2 ^ 46)"
proof -
  have "round_half_even ((7710115478154908 / 2 ^ 46 + 5035177455121576 / 2 ^ 50) * 2 ^ 46) = 8024814069100006"
    using round_half_even_tie [of "(7710115478154908 / 2 ^ 46 + 5035177455121576 / 2 ^ 50) * 2 ^ 46" 8024814069100006] by simp
  then have "b64_of_real (7710115478154908 / 2 ^ 46 + 5035177455121576 / 2 ^ 50) = Finite (8024814069100006 / 2 ^ 46)"
    using b64_of_real_eval [of 46 "7710115478154908 / 2 ^ 46 + 5035177455121576 / 2 ^ 50" 8024814069100006] by simp
  then show ?thesis by (simp)
qed

lemma tie_sum_27:
  "b64_add (Finite (8024814069100006 / 2 ^ 46)) (Finite (5035177455121576 / 2 ^ 50)) = Finite (8339512660045104 / 2 ^ 46)"
proof -
  have "round_half_even ((8024814069100006 / 2 ^ 46 + 5035177455121576 / 2 ^ 50) * 2 ^ 46) = 8339512660045104"
    using round_half_even_tie [of "(8024814069100006 / 2 ^ 46 + 5035177455121576 / 2 ^ 50) * 2 ^ 46" 8339512660045104] by simp
  then have "b64_of_real (8024814069100006 / 2 ^ 46 + 5035177455121576 / 2 ^ 50) = Finite (8339512660045104 / 2 ^ 46)"
    using b64_of_real_eval [of 46 "8024814069100006 / 2 ^ 46 + 5035177455121576 / 2 ^ 50" 8339512660045104] by simp
  then show ?thesis by (simp)
qed

lemma tie_sum_28:
  "b64_add (Finite (8339512660045104 / 2 ^ 46)) (Finite (5035177455121576 / 2 ^ 50)) = Finite (8654211250990202 / 2 ^ 46)"
proof -
  have "round_half_even ((8339512660045104 / 2 ^ 46 + 5035177455121576 / 2 ^ 50) * 2 ^ 46) = 8654211250990202"
    using round_half_even_tie [of "(8339512660045104 / 2 ^ 46 + 5035177455121576 / 2 ^ 50) * 2 ^ 46" 8654211250990202] by simp
  then have "b64_of_real (8339512660045104 / 2 ^ 46 + 5035177455121576 / 2 ^ 50) = Finite (8654211250990202 / 2 ^ 46)"
    using b64_of_real_eval [of 46 "8339512660045104 / 2 ^ 46 + 5035177455121576 / 2 ^ 50" 8654211250990202] by simp
  then show ?thesis by (simp)
qed

lemma tie_sum_29:
  "b64_add (Finite (8654211250990202 / 2 ^ 46)) (Finite (5035177455121576 / 2 ^ 50)) = Finite (8968909841935300 / 2 ^ 46)"
proof -
  have "round_half_even ((8654211250990202 / 2 ^ 46 + 5035177455121576 / 2 ^ 50) * 2 ^ 46) = 8968909841935300"
    using round_half_even_tie [of "(8654211250990202 / 2 ^ 46 + 5035177455121576 / 2 ^ 50) * 2 ^ 46" 8968909841935300] by simp
  then have "b64_of_real (8654211250990202 / 2 ^ 46 + 5035177455121576 / 2 ^ 50) = Finite (8968909841935300 / 2 ^ 46)"
    using b64_of_real_eval [of 46 "8654211250990202 / 2 ^ 46 + 5035177455121576 / 2 ^ 50" 8968909841935300] by simp
  then show ?thesis by (simp)
qed

lemma tie_sum_30:
  "b64_add (Finite (8968909841935300 / 2 ^ 46)) (Finite (5035177455121576 / 2 ^ 50)) = Finite (4641804216440199 / 2 ^ 45)"
proof -
  have "round_half_even ((8968909841935300 / 2 ^ 46 + 5035177455121576 / 2 ^ 50) * 2 ^ 45) = 4641804216440199"
    by (rule round_half_even_unique) simp_all
  then have "b64_of_real (8968909841935300 / 2 ^ 46 + 5035177455121576 / 2 ^ 50) = Finite (4641804216440199 / 2 ^ 45)"
    using b64_of_real_eval [of 45 "8968909841935300 / 2 ^ 46 + 5035177455121576 / 2 ^ 50" 4641804216440199] by simp
  then show ?thesis by (simp)
qed

lemma tie_sum_31:
  "b64_add (Finite (4641804216440199 / 2 ^ 45)) (Finite (5035177455121576 / 2 ^ 50)) = Finite (4799153511912748 / 2 ^ 45)"
proof -
  have "round_half_even ((4641804216440199 / 2 ^ 45 + 5035177455121576 / 2 ^ 50) * 2 ^ 45) = 4799153511912748"
    by (rule round_half_even_unique) simp_all
  then have "b64_of_real (4641804216440199 / 2 ^ 45 + 5035177455121576 / 2 ^ 50) = Finite (4799153511912748 / 2 ^ 45)"
    using b64_of_real_eval [of 45 "4641804216440199 / 2 ^ 45 + 5035177455121576 / 2 ^ 50" 4799153511912748] by simp
  then show ?thesis by (simp)
qed

lemma tie_sum_32:
  "b64_add (Finite (4799153511912748 / 2 ^ 45)) (Finite (5035177455121576 / 2 ^ 50)) = Finite (4956502807385297 / 2 ^ 45)"
proof -
  have "round_half_even ((4799153511912748 / 2 ^ 45 + 5035177455121576 / 2 ^ 50) * 2 ^ 45) = 4956502807385297"
    by (rule round_half_even_unique) simp_all
  then have "b64_of_real (4799153511912748 / 2 ^ 45 + 5035177455121576 / 2 ^ 50) = Finite (4956502807385297 / 2 ^ 45)"
    using b64_of_real_eval [of 45 "4799153511912748 / 2 ^ 45 + 5035177455121576 / 2 ^ 50" 4956502807385297] by simp
  then show ?thesis by (simp)
qed

lemma tie_divisor:
  "b64_mul (Finite 32) (Finite (6293971818901970 / 2 ^ 49)) = Finite (6293971818901970 / 2 ^ 44)"
proof -
  have "round_half_even ((32 * (6293971818901970 / 2 ^ 49)) * 2 ^ 44) = 6293971818901970"
    by (rule round_half_even_unique) simp_all
  then have "b64_of_real (32 * (6293971818901970 / 2 ^ 49)) = Finite (6293971818901970 / 2 ^ 44)"
    using b64_of_real_eval [of 44 "32 * (6293971818901970 / 2 ^ 49)" 6293971818901970] by simp
  then show ?thesis by (simp add: b64_mul_def)
qed

lemma tie_factor:
  "b64_div (Finite 1) (Finite (6293971818901970 / 2 ^ 44)) = Finite (6445027142555617 / 2 ^ 61)"
proof -
  have "round_half_even ((1 / (6293971818901970 / 2 ^ 44)) * 2 ^ 61) = 6445027142555617"
    by (rule round_half_even_unique) simp_all
  then have "b64_of_real (1 / (6293971818901970 / 2 ^ 44)) = Finite (6445027142555617 / 2 ^ 61)"
    using b64_of_real_eval [of 61 "1 / (6293971818901970 / 2 ^ 44)" 6445027142555617] by simp
  then show ?thesis by (simp add: b64_div_def)
qed

lemma tie_product:
  "b64_mul (Finite (4956502807385297 / 2 ^ 45)) (Finite (6445027142555617 / 2 ^ 61)) = Finite (7093169413108525 / 2 ^ 54)"
proof -
  have "round_half_even ((4956502807385297 / 2 ^ 45 * (6445027142555617 / 2 ^ 61)) * 2 ^ 54) = 7093169413108525"
    by (rule round_half_even_unique) simp_all
  then have "b64_of_real (4956502807385297 / 2 ^ 45 * (6445027142555617 / 2 ^ 61)) = Finite (7093169413108525 / 2 ^ 54)"
    using b64_of_real_eval [of 54 "4956502807385297 / 2 ^ 45 * (6445027142555617 / 2 ^ 61)" 7093169413108525] by simp
  then show ?thesis by (simp add: b64_mul_def)
qed

lemma tie_product_10:
  "b64_mul (Finite (7093169413108525 / 2 ^ 54)) (Finite 10) = Finite (8866461766385656 / 2 ^ 51)"
proof -
  have "round_half_even ((7093169413108525 / 2 ^ 54 * 10) * 2 ^ 51) = 8866461766385656"
    by (rule round_half_even_unique) simp_all
  then have "b64_of_real (7093169413108525 / 2 ^ 54 * 10) = Finite (8866461766385656 / 2 ^ 51)"
    using b64_of_real_eval [of 51 "7093169413108525 / 2 ^ 54 * 10" 8866461766385656] by simp
  then show ?thesis by (simp add: b64_mul_def)
qed

lemma tie_round: "py_round (8866461766385656 / 2 ^ 51) 3 = 3937 / 1000"
proof -
  have "round_half_even ((8866461766385656 / 2 ^ 51) * 10 ^ 3) = 3937"
    by (rule round_half_even_unique) simp_all
  then show ?thesis by (simp add: py_round_def)
qed

lemma tie_components:
  "map2 spec_component [1, 2, 2, 2, 2, 2, 2, 2, 2, 2, 2, 2, 2, 2, 2, 2, 2, 2, 2, 2, 2, 2, 2, 2, 2, 2, 2, 2, 2, 2, 2, 2] [5, 5, 5, 5, 5, 5, 5, 5, 5, 5, 5, 5, 5, 5, 5, 5, 5, 5, 5, 5, 5, 5, 5, 5, 5, 5, 5, 5, 5, 5, 5, 5]
     = [Finite (5035177455121576 / 2 ^ 51), Finite (5035177455121576 / 2 ^ 50), Finite (5035177455121576 / 2 ^ 50), Finite (5035177455121576 / 2 ^ 50), Finite (5035177455121576 / 2 ^ 50), Finite (5035177455121576 / 2 ^ 50), Finite (5035177455121576 / 2 ^ 50), Finite (5035177455121576 / 2 ^ 50), Finite (5035177455121576 / 2 ^ 50), Finite (5035177455121576 / 2 ^ 50), Finite (5035177455121576 / 2 ^ 50), Finite (5035177455121576 / 2 ^ 50), Finite (5035177455121576 / 2 ^ 50), Finite (5035177455121576 / 2 ^ 50), Finite (5035177455121576 / 2 ^ 50), Finite (5035177455121576 / 2 ^ 50), Finite (5035177455121576 / 2 ^ 50), Finite (5035177455121576 / 2 ^ 50), Finite (5035177455121576 / 2 ^ 50), Finite (5035177455121576 / 2 ^ 50), Finite (5035177455121576 / 2 ^ 50), Finite (5035177455121576 / 2 ^ 50), Finite (5035177455121576 / 2 ^ 50), Finite (5035177455121576 / 2 ^ 50), Finite (5035177455121576 / 2 ^ 50), Finite (5035177455121576 / 2 ^ 50), Finite (5035177455121576 / 2 ^ 50), Finite (5035177455121576 / 2 ^ 50), Finite (5035177455121576 / 2 ^ 50), Finite (5035177455121576 / 2 ^ 50), Finite (5035177455121576 / 2 ^ 50), Finite (5035177455121576 / 2 ^ 50)]"
  by (simp add: spec_component_1_5 spec_component_2_5)

lemma tie_total:
  "foldl b64_add (Finite 0)
     [Finite (5035177455121576 / 2 ^ 51), Finite (5035177455121576 / 2 ^ 50), Finite (5035177455121576 / 2 ^ 50), Finite (5035177455121576 / 2 ^ 50), Finite (5035177455121576 / 2 ^ 50), Finite (5035177455121576 / 2 ^ 50), Finite (5035177455121576 / 2 ^ 50), Finite (5035177455121576 / 2 ^ 50), Finite (5035177455121576 / 2 ^ 50), Finite (5035177455121576 / 2 ^ 50), Finite (5035177455121576 / 2 ^ 50), Finite (5035177455121576 / 2 ^ 50), Finite (5035177455121576 / 2 ^ 50), Finite (5035177455121576 / 2 ^ 50), Finite (5035177455121576 / 2 ^ 50), Finite (5035177455121576 / 2 ^ 50), Finite (5035177455121576 / 2 ^ 50), Finite (5035177455121576 / 2 ^ 50), Finite (5035177455121576 / 2 ^ 50), Finite (5035177455121576 / 2 ^ 50), Finite (5035177455121576 / 2 ^ 50), Finite (5035177455121576 / 2 ^ 50), Finite (5035177455121576 / 2 ^ 50), Finite (5035177455121576 / 2 ^ 50), Finite (5035177455121576 / 2 ^ 50), Finite (5035177455121576 / 2 ^ 50), Finite (5035177455121576 / 2 ^ 50), Finite (5035177455121576 / 2 ^ 50), Finite (5035177455121576 / 2 ^ 50), Finite (5035177455121576 / 2 ^ 50), Finite (5035177455121576 / 2 ^ 50), Finite (5035177455121576 / 2 ^ 50)]
     = Finite (4956502807385297 / 2 ^ 45)"
  by (simp only: foldl_Cons foldl_Nil tie_sum_1 tie_sum_2 tie_sum_3 tie_sum_4 tie_sum_5 tie_sum_6 tie_sum_7 tie_sum_8 tie_sum_9 tie_sum_10 tie_sum_11 tie_sum_12 tie_sum_13 tie_sum_14 tie_sum_15 tie_sum_16 tie_sum_17 tie_sum_18 tie_sum_19 tie_sum_20 tie_sum_21 tie_sum_22 tie_sum_23 tie_sum_24 tie_sum_25 tie_sum_26 tie_sum_27 tie_sum_28 tie_sum_29 tie_sum_30 tie_sum_31 tie_sum_32)

lemma tie_length: "nearest_double (real (length [1::int, 2, 2, 2, 2, 2, 2, 2, 2, 2, 2, 2, 2, 2, 2, 2, 2, 2, 2, 2, 2, 2, 2, 2, 2, 2, 2, 2, 2, 2, 2, 2])) = 32"
  by (simp add: nearest_double_32)

lemma spec_overall_score_b64_tie:
  "spec_overall_score_b64 [1, 2, 2, 2, 2, 2, 2, 2, 2, 2, 2, 2, 2, 2, 2, 2, 2, 2, 2, 2, 2, 2, 2, 2, 2, 2, 2, 2, 2, 2, 2, 2] [5, 5, 5, 5, 5, 5, 5, 5, 5, 5, 5, 5, 5, 5, 5, 5, 5, 5, 5, 5, 5, 5, 5, 5, 5, 5, 5, 5, 5, 5, 5, 5] = b64_of_real (3937 / 1000)"
  unfolding spec_overall_score_b64_def tie_components tie_total tie_length sqrt_125_double
    tie_divisor tie_factor tie_product tie_product_10 py_round_b64_def
  by (simp only: b64.case tie_round)

lemma sqrt_20: "sqrt 20 = 2 * sqrt 5"
proof -
  have "sqrt 20 = sqrt (4 * 5)" by simp
  also have "\<dots> = sqrt 4 * sqrt 5" by (rule real_sqrt_mult)
  also have "sqrt 4 = 2" by (rule real_sqrt_unique) (simp_all add: power2_eq_square)
  finally show ?thesis .
qed

lemma sqrt_125: "sqrt 125 = 5 * sqrt 5"
proof -
  have "sqrt 125 = sqrt (25 * 5)" by simp
  also have "\<dots> = sqrt 25 * sqrt 5" by (rule real_sqrt_mult)
  also have "sqrt 25 = 5" by (rule real_sqrt_unique) (simp_all add: power2_eq_square)
  finally show ?thesis .
qed

lemma sum_nth_map2:
  assumes "length xs = length ys"
  shows "(\<Sum>i<length xs. g (xs ! i) (ys ! i)) = sum_list (map2 g xs ys)"
proof -
  have "sum_list (map2 g xs ys) = sum_list (map (\<lambda>i. g (xs ! i) (ys ! i)) [0..<length xs])"
    by (simp only: map_index_map2 [OF assms])
  also have "\<dots> = (\<Sum>i<length xs. g (xs ! i) (ys ! i))"
    by (simp add: sum_list_sum_nth atLeast0LessThan)
  finally show ?thesis by simp
qed

lemma tie_exact_sum:
  "sum_list (map2 (\<lambda>f s. sqrt (real_of_int (f ^ 2 * s))) [1, 2, 2, 2, 2, 2, 2, 2, 2, 2, 2, 2, 2, 2, 2, 2, 2, 2, 2, 2, 2, 2, 2, 2, 2, 2, 2, 2, 2, 2, 2, 2] [5, 5, 5, 5, 5, 5, 5, 5, 5, 5, 5, 5, 5, 5, 5, 5, 5, 5, 5, 5, 5, 5, 5, 5, 5, 5, 5, 5, 5, 5, 5, 5]) = 63 * sqrt 5"
  by (simp add: sqrt_20)

lemma tie_exact_round: "py_round (63 / 16) 3 = 3938 / 1000"
proof -
  have "round_half_even (63 / 16 * 10 ^ 3) = 3938"
    using round_half_even_tie [of "63 / 16 * 10 ^ 3" 3937] by simp
  then show ?thesis by (simp add: py_round_def)
qed

lemma spec_overall_score_tie:
  "spec_overall_score [1, 2, 2, 2, 2, 2, 2, 2, 2, 2, 2, 2, 2, 2, 2, 2, 2, 2, 2, 2, 2, 2, 2, 2, 2, 2, 2, 2, 2, 2, 2, 2] [5, 5, 5, 5, 5, 5, 5, 5, 5, 5, 5, 5, 5, 5, 5, 5, 5, 5, 5, 5, 5, 5, 5, 5, 5, 5, 5, 5, 5, 5, 5, 5] = 3938 / 1000"
proof -
  have len: "length ([1, 2, 2, 2, 2, 2, 2, 2, 2, 2, 2, 2, 2, 2, 2, 2, 2, 2, 2, 2, 2, 2, 2, 2, 2, 2, 2, 2, 2, 2, 2, 2] :: int list) = length ([5, 5, 5, 5, 5, 5, 5, 5, 5, 5, 5, 5, 5, 5, 5, 5, 5, 5, 5, 5, 5, 5, 5, 5, 5, 5, 5, 5, 5, 5, 5, 5] :: int list)" by simp
  have n: "real (length ([1, 2, 2, 2, 2, 2, 2, 2, 2, 2, 2, 2, 2, 2, 2, 2, 2, 2, 2, 2, 2, 2, 2, 2, 2, 2, 2, 2, 2, 2, 2, 2] :: int list)) = 32" by simp
  have s: "(\<Sum>i<length ([1, 2, 2, 2, 2, 2, 2, 2, 2, 2, 2, 2, 2, 2, 2, 2, 2, 2, 2, 2, 2, 2, 2, 2, 2, 2, 2, 2, 2, 2, 2, 2] :: int list). sqrt (real_of_int ((([1, 2, 2, 2, 2, 2, 2, 2, 2, 2, 2, 2, 2, 2, 2, 2, 2, 2, 2, 2, 2, 2, 2, 2, 2, 2, 2, 2, 2, 2, 2, 2] :: int list) ! i) ^ 2 * ([5, 5, 5, 5, 5, 5, 5, 5, 5, 5, 5, 5, 5, 5, 5, 5, 5, 5, 5, 5, 5, 5, 5, 5, 5, 5, 5, 5, 5, 5, 5, 5] :: int list) ! i)))
      = sum_list (map2 (\<lambda>f s. sqrt (real_of_int (f ^ 2 * s))) [1, 2, 2, 2, 2, 2, 2, 2, 2, 2, 2, 2, 2, 2, 2, 2, 2, 2, 2, 2, 2, 2, 2, 2, 2, 2, 2, 2, 2, 2, 2, 2] [5, 5, 5, 5, 5, 5, 5, 5, 5, 5, 5, 5, 5, 5, 5, 5, 5, 5, 5, 5, 5, 5, 5, 5, 5, 5, 5, 5, 5, 5, 5, 5])"
    by (rule sum_nth_map2 [OF len])
  have v: "(63 * sqrt 5) * (1 / (32 * (5 * sqrt 5))) * 10 = 63 / 16" by simp
  show ?thesis
    unfolding spec_overall_score_def s tie_exact_sum n sqrt_125 v
    by (rule tie_exact_round)
qed

lemma tie_in_range:
  "\<forall>i<length ([1, 2, 2, 2, 2, 2, 2, 2, 2, 2, 2, 2, 2, 2, 2, 2, 2, 2, 2, 2, 2, 2, 2, 2, 2, 2, 2, 2, 2, 2, 2, 2] :: int list). 0 \<le> (([1, 2, 2, 2, 2, 2, 2, 2, 2, 2, 2, 2, 2, 2, 2, 2, 2, 2, 2, 2, 2, 2, 2, 2, 2, 2, 2, 2, 2, 2, 2, 2] :: int list) ! i) ^ 2 * ([5, 5, 5, 5, 5, 5, 5, 5, 5, 5, 5, 5, 5, 5, 5, 5, 5, 5, 5, 5, 5, 5, 5, 5, 5, 5, 5, 5, 5, 5, 5, 5] :: int list) ! i
      \<and> (([1, 2, 2, 2, 2, 2, 2, 2, 2, 2, 2, 2, 2, 2, 2, 2, 2, 2, 2, 2, 2, 2, 2, 2, 2, 2, 2, 2, 2, 2, 2, 2] :: int list) ! i) ^ 2 * ([5, 5, 5, 5, 5, 5, 5, 5, 5, 5, 5, 5, 5, 5, 5, 5, 5, 5, 5, 5, 5, 5, 5, 5, 5, 5, 5, 5, 5, 5, 5, 5] :: int list) ! i < float_overflow_bound"
  by (rule in_range_products) simp_all

lemma tie_length_converts: "int (length ([1, 2, 2, 2, 2, 2, 2, 2, 2, 2, 2, 2, 2, 2, 2, 2, 2, 2, 2, 2, 2, 2, 2, 2, 2, 2, 2, 2, 2, 2, 2, 2] :: int list)) < float_overflow_bound"
  using float_overflow_bound_large by simp

lemma literal_3_937: "b64_of_real (3937 / 1000) = Finite (8865335866478821 / 2 ^ 51)"
proof -
  have "round_half_even (3937 / 1000 * 2 ^ 51) = 8865335866478821"
    by (rule round_half_even_unique) simp_all
  then show ?thesis
    using b64_of_real_eval [of 51 "3937 / 1000" 8865335866478821] by simp
qed

lemma calculate_overall_score_b64_tie:
  "calculate_overall_score_b64 name [1, 2, 2, 2, 2, 2, 2, 2, 2, 2, 2, 2, 2, 2, 2, 2, 2, 2, 2, 2, 2, 2, 2, 2, 2, 2, 2, 2, 2, 2, 2, 2] [5, 5, 5, 5, 5, 5, 5, 5, 5, 5, 5, 5, 5, 5, 5, 5, 5, 5, 5, 5, 5, 5, 5, 5, 5, 5, 5, 5, 5, 5, 5, 5] = Inr [name \<mapsto> Finite (8865335866478821 / 2 ^ 51)]"
proof -
  have "calculate_overall_score_b64 name [1, 2, 2, 2, 2, 2, 2, 2, 2, 2, 2, 2, 2, 2, 2, 2, 2, 2, 2, 2, 2, 2, 2, 2, 2, 2, 2, 2, 2, 2, 2, 2] [5, 5, 5, 5, 5, 5, 5, 5, 5, 5, 5, 5, 5, 5, 5, 5, 5, 5, 5, 5, 5, 5, 5, 5, 5, 5, 5, 5, 5, 5, 5, 5]
      = Inr [name \<mapsto> spec_overall_score_b64 [1, 2, 2, 2, 2, 2, 2, 2, 2, 2, 2, 2, 2, 2, 2, 2, 2, 2, 2, 2, 2, 2, 2, 2, 2, 2, 2, 2, 2, 2, 2, 2] [5, 5, 5, 5, 5, 5, 5, 5, 5, 5, 5, 5, 5, 5, 5, 5, 5, 5, 5, 5, 5, 5, 5, 5, 5, 5, 5, 5, 5, 5, 5, 5]]"
    by (rule calc_b64_defined [OF _ _ tie_in_range tie_length_converts]) simp_all
  then show ?thesis by (simp only: spec_overall_score_b64_tie literal_3_937)
qed

lemma calculate_overall_score_tie:
  "calculate_overall_score name [1, 2, 2, 2, 2, 2, 2, 2, 2, 2, 2, 2, 2, 2, 2, 2, 2, 2, 2, 2, 2, 2, 2, 2, 2, 2, 2, 2, 2, 2, 2, 2] [5, 5, 5, 5, 5, 5, 5, 5, 5, 5, 5, 5, 5, 5, 5, 5, 5, 5, 5, 5, 5, 5, 5, 5, 5, 5, 5, 5, 5, 5, 5, 5] = Inr [name \<mapsto> 3938 / 1000]"
proof -
  have "calculate_overall_score name [1, 2, 2, 2, 2, 2, 2, 2, 2, 2, 2, 2, 2, 2, 2, 2, 2, 2, 2, 2, 2, 2, 2, 2, 2, 2, 2, 2, 2, 2, 2, 2] [5, 5, 5, 5, 5, 5, 5, 5, 5, 5, 5, 5, 5, 5, 5, 5, 5, 5, 5, 5, 5, 5, 5, 5, 5, 5, 5, 5, 5, 5, 5, 5]
      = Inr [name \<mapsto> spec_overall_score [1, 2, 2, 2, 2, 2, 2, 2, 2, 2, 2, 2, 2, 2, 2, 2, 2, 2, 2, 2, 2, 2, 2, 2, 2, 2, 2, 2, 2, 2, 2, 2] [5, 5, 5, 5, 5, 5, 5, 5, 5, 5, 5, 5, 5, 5, 5, 5, 5, 5, 5, 5, 5, 5, 5, 5, 5, 5, 5, 5, 5, 5, 5, 5]]"
    by (rule calc_defined [OF _ _ tie_in_range]) simp_all
  then show ?thesis by (simp only: spec_overall_score_tie)
qed

text \<open>
  C1, amended. For every entity name and equal-length non-empty integer lists in which
  every product \<open>food_scores[i]^2 * service_scores[i]\<close> is non-negative and converts to
  a float (and whose length converts to a float, as the length of every Python list
  does), \<open>calculate_overall_score\<close> returns the name paired with
  \<open>round (sum * (1 / (N * sqrt 125)) * 10, 3)\<close>, where the sum of the components
  \<open>sqrt (food_scores[i]^2 * service_scores[i])\<close> is taken from the left and every
  operation is the binary64 one; the value is not always the rounding of the exact
  real value of the formula (see \<open>calculate_overall_score_b64_tie\<close>). For the lists \<open>[3]\<close> and \<open>[4]\<close> the value is \<open>5.367\<close>, that
  is, the float nearest to it.
\<close>

theorem calculate_overall_score_b64_formula:
  "(food_scores \<noteq> [] \<and> length food_scores = length service_scores
      \<and> (\<forall>i<length food_scores.
             0 \<le> (food_scores ! i) ^ 2 * service_scores ! i
           \<and> (food_scores ! i) ^ 2 * service_scores ! i < float_overflow_bound)
      \<and> int (length food_scores) < float_overflow_bound
     \<longrightarrow> calculate_overall_score_b64 name food_scores service_scores
           = Inr [name \<mapsto> spec_overall_score_b64 food_scores service_scores])
   \<and> calculate_overall_score_b64 name [3] [4] = Inr [name \<mapsto> b64_of_real (5367 / 1000)]
   \<and> b64_of_real (5367 / 1000) = Finite (6042704800024363 / 2 ^ 50)"
proof (intro conjI impI)
  assume "food_scores \<noteq> [] \<and> length food_scores = length service_scores
      \<and> (\<forall>i<length food_scores.
             0 \<le> (food_scores ! i) ^ 2 * service_scores ! i
           \<and> (food_scores ! i) ^ 2 * service_scores ! i < float_overflow_bound)
      \<and> int (length food_scores) < float_overflow_bound"
  then show "calculate_overall_score_b64 name food_scores service_scores
           = Inr [name \<mapsto> spec_overall_score_b64 food_scores service_scores]"
    by (intro calc_b64_defined) simp_all
next
  have "calculate_overall_score_b64 name [3] [4] = Inr [name \<mapsto> spec_overall_score_b64 [3] [4]]"
    by (rule calc_b64_defined [OF _ _ products_3_4_b64 length_1_converts]) simp_all
  then show "calculate_overall_score_b64 name [3] [4] = Inr [name \<mapsto> b64_of_real (5367 / 1000)]"
    by (simp only: spec_overall_score_b64_3_4)
next
  show "b64_of_real (5367 / 1000) = Finite (6042704800024363 / 2 ^ 50)"
    by (rule literal_5_367)
qed

theorem calculate_overall_score_b64_formula_witness:
  "[3 :: int] \<noteq> [] \<and> length [3 :: int] = length [4 :: int]
   \<and> 0 \<le> (3 :: int) ^ 2 * 4 \<and> (3 :: int) ^ 2 * 4 < float_overflow_bound
   \<and> int (length [3 :: int]) < float_overflow_bound
   \<and> calculate_overall_score_b64 ''Bob's'' [3] [4]
        = Inr [''Bob's'' \<mapsto> spec_overall_score_b64 [3] [4]]
   \<and> spec_overall_score_b64 [3] [4] = Finite (6042704800024363 / 2 ^ 50)"
proof -
  have v: "spec_overall_score_b64 [3] [4] = Finite (6042704800024363 / 2 ^ 50)"
    by (simp only: spec_overall_score_b64_3_4 literal_5_367)
  have c: "calculate_overall_score_b64 ''Bob's'' [3] [4]
        = Inr [''Bob's'' \<mapsto> spec_overall_score_b64 [3] [4]]"
    using calculate_overall_score_b64_formula [of "[3]" "[4]" "''Bob's''"]
      products_3_4_b64 length_1_converts by simp
  show ?thesis
    using c v products_3_4_b64 length_1_converts by simp
qed

text \<open>
  The claim fails in two ways. For every pair of integer lists: a negative service
  score with a non-zero food score makes \<^verbatim>\<open>math.sqrt\<close> raise. For the value as the
  rounding of the exact formula: at the near-tie above the function returns \<open>3.937\<close>
  (the float nearest to it) and the exact formula rounds to \<open>3.938\<close>.
\<close>

theorem calculate_overall_score_b64_counterexample:
  "calculate_overall_score_b64 ''Bob's'' [2] [- 3] = Inl ValueError
   \<and> calculate_overall_score_b64 ''Bob's''
         [1, 2, 2, 2, 2, 2, 2, 2, 2, 2, 2, 2, 2, 2, 2, 2, 2, 2, 2, 2, 2, 2, 2, 2, 2, 2, 2, 2, 2, 2, 2, 2]
         [5, 5, 5, 5, 5, 5, 5, 5, 5, 5, 5, 5, 5, 5, 5, 5, 5, 5, 5, 5, 5, 5, 5, 5, 5, 5, 5, 5, 5, 5, 5, 5]
       = Inr [''Bob's'' \<mapsto> Finite (8865335866478821 / 2 ^ 51)]
   \<and> b64_of_real (3937 / 1000) = Finite (8865335866478821 / 2 ^ 51)
   \<and> spec_overall_score
         [1, 2, 2, 2, 2, 2, 2, 2, 2, 2, 2, 2, 2, 2, 2, 2, 2, 2, 2, 2, 2, 2, 2, 2, 2, 2, 2, 2, 2, 2, 2, 2]
         [5, 5, 5, 5, 5, 5, 5, 5, 5, 5, 5, 5, 5, 5, 5, 5, 5, 5, 5, 5, 5, 5, 5, 5, 5, 5, 5, 5, 5, 5, 5, 5]
       = 3938 / 1000"
proof (intro conjI)
  show "calculate_overall_score_b64 ''Bob's'' [2] [- 3] = Inl ValueError"
    using float_overflow_bound_large
    by (simp add: calculate_overall_score_b64_def py_index_def math_sqrt_b64_def float_of_int_def
          nearest_double_minus_12)
qed (rule calculate_overall_score_b64_tie literal_3_937 spec_overall_score_tie)+

section \<open>Properties of fetch_restaurant_data\<close>

lemma startswith_period:
  assumes "startswith line (name @ ''.'')"
  shows "CHR ''.'' \<in> set line"
proof -
  have "set (take (length (name @ ''.'')) line) \<subseteq> set line" by (rule set_take_subset)
  then show ?thesis using assms by (auto simp add: startswith_def)
qed

lemma split_once_second:
  assumes "sep \<in> set s"
  shows "py_index (split_once sep s) 1 = Inr (drop 1 (dropWhile (\<lambda>c. c \<noteq> sep) s))"
proof -
  have "dropWhile (\<lambda>c. c \<noteq> sep) s \<noteq> []"
    using assms by (simp add: dropWhile_eq_Nil_conv)
  then obtain x rest where "dropWhile (\<lambda>c. c \<noteq> sep) s = x # rest"
    by (cases "dropWhile (\<lambda>c. c \<noteq> sep) s") simp_all
  then show ?thesis by (simp add: split_once_def py_index_def)
qed

lemma fetch_loop_reviews:
  "fetch_loop name lines reviews = Inr (reviews @ spec_reviews name lines)"
proof (induction lines arbitrary: reviews)
  case Nil
  then show ?case by (simp add: spec_reviews_def)
next
  case (Cons raw lines)
  show ?case
  proof (cases "startswith (strip raw) (name @ ''.'')")
    case True
    then have "py_index (split_once (CHR ''.'') (strip raw)) 1
                 = Inr (drop 1 (dropWhile (\<lambda>c. c \<noteq> CHR ''.'') (strip raw)))"
      by (intro split_once_second startswith_period)
    with True show ?thesis
      by (simp add: Cons.IH spec_reviews_def spec_attributed_def spec_review_text_def)
  next
    case False
    then show ?thesis
      by (simp add: Cons.IH spec_reviews_def spec_attributed_def)
  qed
qed

lemma fetch_readable:
  "fetch_restaurant_data (Readable lines) name = Inr [name \<mapsto> spec_reviews name lines]"
  by (simp add: fetch_restaurant_data_def fetch_loop_reviews)

lemma fetch_not_found:
  "fetch_restaurant_data FileNotFound name = Inr [name \<mapsto> []]"
  by (simp add: fetch_restaurant_data_def)

lemma spec_reviews_example:
  "spec_reviews ''Bob's'' [''Bob's. Great fries.'' @ [CHR 0x0A], ''Bobby's. Bad service.'']
     = [''Great fries.'']"
  by (simp add: spec_reviews_def spec_attributed_def spec_review_text_def startswith_def
        strip_def is_space_def)

lemma startswith_iff_append: "startswith s p \<longleftrightarrow> (\<exists>rest. s = p @ rest)"
proof
  assume "startswith s p"
  then have "s = p @ drop (length p) s"
    using append_take_drop_id [of "length p" s] by (simp add: startswith_def)
  then show "\<exists>rest. s = p @ rest" ..
next
  assume "\<exists>rest. s = p @ rest"
  then show "startswith s p" by (auto simp add: startswith_def)
qed

text \<open>
  C3. A line is attributed to the queried entity exactly when, trimmed, it is the literal
  name, a period and some rest (no case folding, no normalisation); the reviews returned
  are, in file order, the trimmed texts after the first period of the attributed lines.
  Fetching \<open>Bob's\<close> from the lines \<open>Bob's. Great fries.\<close> and \<open>Bobby's. Bad service.\<close>
  returns the review text of the first line only.
\<close>

theorem fetch_restaurant_data_attribution:
  "fetch_restaurant_data (Readable lines) entity_name
     = Inr [entity_name \<mapsto> map spec_review_text (filter (spec_attributed entity_name) lines)]
   \<and> (spec_attributed entity_name raw \<longleftrightarrow> (\<exists>rest. strip raw = entity_name @ ''.'' @ rest))
   \<and> fetch_restaurant_data
       (Readable [''Bob's. Great fries.'' @ [CHR 0x0A], ''Bobby's. Bad service.'']) ''Bob's''
     = Inr [''Bob's'' \<mapsto> [''Great fries.'']]"
proof (intro conjI)
  show "fetch_restaurant_data (Readable lines) entity_name
     = Inr [entity_name \<mapsto> map spec_review_text (filter (spec_attributed entity_name) lines)]"
    using fetch_readable [of lines entity_name] by (simp add: spec_reviews_def)
  show "spec_attributed entity_name raw \<longleftrightarrow> (\<exists>rest. strip raw = entity_name @ ''.'' @ rest)"
    by (simp add: spec_attributed_def startswith_iff_append)
  show "fetch_restaurant_data
       (Readable [''Bob's. Great fries.'' @ [CHR 0x0A], ''Bobby's. Bad service.'']) ''Bob's''
     = Inr [''Bob's'' \<mapsto> [''Great fries.'']]"
    using fetch_readable
      [of "[''Bob's. Great fries.'' @ [CHR 0x0A], ''Bobby's. Bad service.'']" "''Bob's''"]
    unfolding spec_reviews_example by simp
qed

lemma spec_reviews_no_match:
  assumes "\<forall>raw\<in>set lines. \<not> startswith (strip raw) (name @ ''.'')"
  shows "spec_reviews name lines = []"
  using assms by (simp add: spec_reviews_def spec_attributed_def)

text \<open>
  C8. For every entity name, if the corpus file is absent, or it is read and none of its
  lines is attributed to the entity, \<open>fetch_restaurant_data\<close> returns the dictionary
  that maps the name to the empty list; it does not raise.
\<close>

theorem fetch_restaurant_data_empty:
  assumes "file = FileNotFound
           \<or> (\<exists>lines. file = Readable lines
                 \<and> (\<forall>raw\<in>set lines. \<not> startswith (strip raw) (entity_name @ ''.'')))"
  shows "fetch_restaurant_data file entity_name = Inr [entity_name \<mapsto> []]"
  using assms
proof
  assume "file = FileNotFound"
  then show ?thesis by (simp add: fetch_not_found)
next
  assume "\<exists>lines. file = Readable lines
            \<and> (\<forall>raw\<in>set lines. \<not> startswith (strip raw) (entity_name @ ''.''))"
  then obtain lines where "file = Readable lines"
    and "\<forall>raw\<in>set lines. \<not> startswith (strip raw) (entity_name @ ''.'')" by blast
  then show ?thesis by (simp add: fetch_readable spec_reviews_no_match)
qed

theorem fetch_restaurant_data_empty_witness:
  "fetch_restaurant_data FileNotFound ''Unknown'' = Inr [''Unknown'' \<mapsto> []]
   \<and> \<not> startswith (strip ''Bob's. Great fries.'') (''Unknown'' @ ''.'')
   \<and> \<not> startswith (strip ''Bobby's. Bad service.'') (''Unknown'' @ ''.'')
   \<and> fetch_restaurant_data (Readable [''Bob's. Great fries.'', ''Bobby's. Bad service.''])
        ''Unknown'' = Inr [''Unknown'' \<mapsto> []]"
proof -
  have no: "\<forall>raw\<in>set [''Bob's. Great fries.'', ''Bobby's. Bad service.''].
         \<not> startswith (strip raw) (''Unknown'' @ ''.'')"
    by (simp add: startswith_def strip_def is_space_def)
  show ?thesis
    using no fetch_restaurant_data_empty [of FileNotFound "''Unknown''"]
      fetch_restaurant_data_empty
        [of "Readable [''Bob's. Great fries.'', ''Bobby's. Bad service.'']" "''Unknown''"]
    by auto
qed

text \<open>
  C10. For every corpus content and every queried name, the dictionary returned by
  \<open>fetch_restaurant_data\<close> has exactly one key, the queried name, whatever other
  entities the corpus reviews; so it has when the file is absent.
\<close>

theorem fetch_restaurant_data_single_key:
  "(\<exists>d. fetch_restaurant_data (Readable lines) restaurant_name = Inr d
        \<and> dom d = {restaurant_name})
   \<and> (\<exists>d. fetch_restaurant_data FileNotFound restaurant_name = Inr d
        \<and> dom d = {restaurant_name})"
  by (simp add: fetch_readable fetch_not_found)

section \<open>Totality of the two tool functions\<close>

text \<open>
  C4, amended. \<open>calculate_overall_score\<close> returns a value exactly when the lists are
  empty or of different lengths, or every product
  \<open>food_scores[i]^2 * customer_service_scores[i]\<close> is non-negative and converts to a
  float; \<open>fetch_restaurant_data\<close> returns a value when the corpus file is absent and
  when it is read.
\<close>

theorem core_functions_return:
  "((\<exists>d. calculate_overall_score restaurant_name food_scores customer_service_scores = Inr d)
      \<longleftrightarrow> (food_scores = [] \<or> customer_service_scores = []
           \<or> length food_scores \<noteq> length customer_service_scores
           \<or> (\<forall>i<length food_scores.
                  0 \<le> (food_scores ! i) ^ 2 * customer_service_scores ! i
                \<and> (food_scores ! i) ^ 2 * customer_service_scores ! i < float_overflow_bound)))
   \<and> (\<exists>d. fetch_restaurant_data FileNotFound restaurant_name = Inr d)
   \<and> (\<exists>d. fetch_restaurant_data (Readable lines) restaurant_name = Inr d)"
  by (simp add: calc_returns_iff fetch_readable fetch_not_found)

theorem core_functions_return_witness:
  "0 \<le> (3 :: int) ^ 2 * 4 \<and> (3 :: int) ^ 2 * 4 < float_overflow_bound
   \<and> (\<exists>d. calculate_overall_score ''Bob's'' [3] [4] = Inr d)
   \<and> length [1, 2 :: int] \<noteq> length [1 :: int]
   \<and> (\<exists>d. calculate_overall_score ''Bob's'' [1, 2] [1] = Inr d)"
  using products_3_4 core_functions_return [of "''Bob's''" "[3]" "[4]"]
    core_functions_return [of "''Bob's''" "[1, 2]" "[1]"]
  by simp

text \<open>
  The claim for every input fails: with the service score \<open>-1\<close> the square root raises
  a domain error, which nothing catches.
\<close>

theorem calculate_overall_score_domain_error:
  "calculate_overall_score ''KFC'' [1] [- 1] = Inl ValueError"
  by (simp add: calculate_overall_score_def py_index_def math_sqrt_def float_overflow_bound_def)

section \<open>Properties of the final answer\<close>

lemma not_digit_period: "\<not> is_digit (CHR ''.'')"
  by (simp add: is_digit_def)

lemma match_score_at_number:
  assumes "digits \<noteq> []" "list_all is_digit digits" "length decimals = 3" "list_all is_digit decimals"
  shows "match_score_at (digits @ ''.'' @ decimals @ post) = Some (digits @ ''.'' @ decimals)"
proof -
  have all: "\<forall>c\<in>set digits. is_digit c" using assms(2) by (simp add: list_all_iff)
  have tw: "takeWhile is_digit (digits @ ''.'' @ decimals @ post) = digits"
    using all not_digit_period by (simp add: takeWhile_append2)
  have dw: "dropWhile is_digit (digits @ ''.'' @ decimals @ post) = ''.'' @ decimals @ post"
    using all not_digit_period by (simp add: dropWhile_append2)
  show ?thesis
    unfolding match_score_at_def tw dw using assms by simp
qed

lemma search_score_at_match:
  assumes "match_score_at s = Some m"
  shows "search_score s = Some m"
proof (cases s)
  case Nil
  with assms show ?thesis by (simp add: match_score_at_def)
next
  case (Cons c cs)
  with assms show ?thesis by simp
qed

lemma search_score_complete:
  assumes "digits \<noteq> []" "list_all is_digit digits" "length decimals = 3" "list_all is_digit decimals"
  shows "\<exists>score. search_score (pre @ digits @ ''.'' @ decimals @ post) = Some score"
proof (induction pre)
  case Nil
  show ?case
    using search_score_at_match [OF match_score_at_number [OF assms, of post]] by simp
next
  case (Cons c pre)
  then show ?case by (cases "match_score_at (c # pre @ digits @ ''.'' @ decimals @ post)") simp_all
qed

lemma main_print_sentence:
  assumes "result \<noteq> []" "chat_history (last result) = Some history" "history \<noteq> []"
    and "last history ''content'' = Some (PyStr last_message)"
    and "search_score last_message = Some score"
    and "search_restaurant user_query = Some group1"
  shows "main_print result user_query = Inr [answer_sentence (strip group1) score]"
  using assms by (simp add: main_print_def py_getitem_def)

lemma main_print_raw:
  assumes "result \<noteq> []" "chat_history (last result) = Some history" "history \<noteq> []"
    and "last history ''content'' = Some (PyStr last_message)"
    and "search_score last_message = None \<or> search_restaurant user_query = None"
  shows "main_print result user_query = Inr [last_message]"
  using assms by (auto simp add: main_print_def py_getitem_def Let_def split: option.splits)

lemma main_print_notice:
  assumes "result \<noteq> []" "chat_history (last result) = None \<or> chat_history (last result) = Some []"
  shows "main_print result user_query = Inr [could_not_process]"
  using assms by (auto simp add: main_print_def)

lemma main_print_no_content:
  assumes "result \<noteq> []" "chat_history (last result) = Some history" "history \<noteq> []"
    and "last history ''content'' = None"
  shows "main_print result user_query = Inl KeyError"
  using assms by (simp add: main_print_def py_getitem_def)

lemma main_print_not_a_string:
  assumes "result \<noteq> []" "chat_history (last result) = Some history" "history \<noteq> []"
    and "last history ''content'' = Some PyNonStr"
  shows "main_print result user_query = Inl TypeError"
  using assms by (simp add: main_print_def py_getitem_def)

lemma main_print_string_one_line:
  assumes "result \<noteq> []" "chat_history (last result) = Some history" "history \<noteq> []"
    and "last history ''content'' = Some (PyStr last_message)"
  shows "\<exists>line. main_print result user_query = Inr [line]"
  using assms by (auto simp add: main_print_def py_getitem_def Let_def split: option.splits)

lemma search_score_example:
  "search_score ''The average rating of Bob's is 7.123.'' = Some ''7.123''"
  by (simp add: match_score_at_def is_digit_def)

lemma search_restaurant_english: "search_restaurant ''What is the score of Bob's?'' = None"
  by (simp add: match_restaurant_at_def)

lemma search_restaurant_portuguese: "search_restaurant ''Qual a nota do Bob's?'' = Some ''Bob's''"
  by (simp add: match_restaurant_at_def)

text \<open>
  C5, amended. When the last message of the final transcript contains one or more
  digits, a point and three digits, and the query matches \<^verbatim>\<open>(?:do|da) ([^?]+)\?\<close>
  without regard to case, one string is printed: the Portuguese sentence of the source,
  \<open>answer_sentence\<close>, with the trimmed entity group and the first such number. Given
  the final message
  \<open>The average rating of Bob's is 7.123.\<close> and the query \<open>What is the score of Bob's?\<close>
  the output is exactly that message: the query has no entity match and the raw message
  is printed.
\<close>

theorem main_print_answer:
  "(result \<noteq> [] \<and> chat_history (last result) = Some history \<and> history \<noteq> []
      \<and> last history ''content'' = Some (PyStr (pre @ digits @ ''.'' @ decimals @ post))
      \<and> digits \<noteq> [] \<and> list_all is_digit digits
      \<and> length decimals = 3 \<and> list_all is_digit decimals
      \<and> search_restaurant user_query = Some group1
    \<longrightarrow> (\<exists>score. search_score (pre @ digits @ ''.'' @ decimals @ post) = Some score
           \<and> main_print result user_query = Inr [answer_sentence (strip group1) score]))
   \<and> main_print
        [\<lparr>chat_history = Some [[''content'' \<mapsto> PyStr ''The average rating of Bob's is 7.123.'']]\<rparr>]
        ''What is the score of Bob's?''
      = Inr [''The average rating of Bob's is 7.123.'']"
proof (intro conjI impI)
  assume h: "result \<noteq> [] \<and> chat_history (last result) = Some history \<and> history \<noteq> []
      \<and> last history ''content'' = Some (PyStr (pre @ digits @ ''.'' @ decimals @ post))
      \<and> digits \<noteq> [] \<and> list_all is_digit digits
      \<and> length decimals = 3 \<and> list_all is_digit decimals
      \<and> search_restaurant user_query = Some group1"
  then obtain score where "search_score (pre @ digits @ ''.'' @ decimals @ post) = Some score"
    using search_score_complete [of digits decimals pre post] by auto
  with h show "\<exists>score. search_score (pre @ digits @ ''.'' @ decimals @ post) = Some score
           \<and> main_print result user_query = Inr [answer_sentence (strip group1) score]"
    using main_print_sentence by blast
next
  show "main_print
        [\<lparr>chat_history = Some [[''content'' \<mapsto> PyStr ''The average rating of Bob's is 7.123.'']]\<rparr>]
        ''What is the score of Bob's?''
      = Inr [''The average rating of Bob's is 7.123.'']"
    using main_print_raw
      [of "[\<lparr>chat_history = Some [[''content'' \<mapsto> PyStr ''The average rating of Bob's is 7.123.'']]\<rparr>]"
          "[[''content'' \<mapsto> PyStr ''The average rating of Bob's is 7.123.'']]"
          "''The average rating of Bob's is 7.123.''"
          "''What is the score of Bob's?''"]
      search_restaurant_english
    by simp
qed

theorem main_print_answer_witness:
  "search_restaurant ''Qual a nota do Bob's?'' = Some ''Bob's''
   \<and> main_print [\<lparr>chat_history = Some [[''content'' \<mapsto> PyStr ''Nota: 7.123.'']]\<rparr>]
         ''Qual a nota do Bob's?''
       = Inr [answer_sentence ''Bob's'' ''7.123'']"
proof -
  have s: "search_score ''Nota: 7.123.'' = Some ''7.123''"
    by (simp add: match_score_at_def is_digit_def)
  have t: "strip ''Bob's'' = ''Bob's''" by (simp add: strip_def is_space_def)
  have d: "list_all is_digit ''7'' \<and> list_all is_digit ''123''" by (simp add: is_digit_def)
  show ?thesis
    using main_print_answer
      [of "[\<lparr>chat_history = Some [[''content'' \<mapsto> PyStr ''Nota: 7.123.'']]\<rparr>]"
          "[[''content'' \<mapsto> PyStr ''Nota: 7.123.'']]" "''Nota: ''" "''7''" "''123''" "''.''"
          "''Qual a nota do Bob's?''" "''Bob's''"]
      s t d search_restaurant_portuguese
    by simp
qed

text \<open>
  The claim with the English sentence and the English query fails: for the query
  \<open>What is the score of Bob's?\<close> a message with a score is printed as it is, and for a
  Portuguese query the sentence printed is the Portuguese one.
\<close>

theorem main_print_english_counterexample:
  "main_print [\<lparr>chat_history = Some [[''content'' \<mapsto> PyStr ''Score: 7.123'']]\<rparr>]
       ''What is the score of Bob's?''
     = Inr [''Score: 7.123'']
   \<and> main_print [\<lparr>chat_history = Some [[''content'' \<mapsto> PyStr ''Score: 7.123'']]\<rparr>]
       ''What is the score of Bob's?''
     \<noteq> Inr [spec_answer_sentence ''Bob's'' ''7.123'']
   \<and> main_print [\<lparr>chat_history = Some [[''content'' \<mapsto> PyStr ''Score: 7.123'']]\<rparr>]
       ''Qual a nota do Bob's?''
     \<noteq> Inr [spec_answer_sentence ''Bob's'' ''7.123'']"
proof -
  let ?history = "[[''content'' \<mapsto> PyStr ''Score: 7.123'']]"
  let ?result = "[\<lparr>chat_history = Some ?history\<rparr>]"
  have s: "search_score ''Score: 7.123'' = Some ''7.123''"
    by (simp add: match_score_at_def is_digit_def)
  have t: "strip ''Bob's'' = ''Bob's''" by (simp add: strip_def is_space_def)
  have english: "main_print ?result ''What is the score of Bob's?'' = Inr [''Score: 7.123'']"
    using main_print_raw [of ?result ?history "''Score: 7.123''" "''What is the score of Bob's?''"]
      search_restaurant_english by simp
  have portuguese: "main_print ?result ''Qual a nota do Bob's?''
      = Inr [answer_sentence ''Bob's'' ''7.123'']"
    using main_print_sentence
      [of ?result ?history "''Score: 7.123''" "''7.123''" "''Qual a nota do Bob's?''" "''Bob's''"]
      search_restaurant_portuguese s t by simp
  show ?thesis
    unfolding english portuguese
    by (simp add: spec_answer_sentence_def answer_sentence_def)
qed

text \<open>
  C6, amended. The step raises exactly when the final transcript has a last message
  without a string content: KeyError when the message has no content, TypeError when the
  content is not a string (\<^verbatim>\<open>None\<close> on a message that only calls a tool); nothing is
  printed then. In every other case of a non-empty list of transcripts exactly one
  string is printed: the fixed notice when the final transcript has no chat history or
  an empty one, and, for a string content, the raw final message when the numeric match
  or the entity match fails. For an empty list of transcripts nothing is printed and
  nothing is raised.
\<close>

theorem main_print_one_line:
  "main_print [] user_query = Inr []
   \<and> (result \<noteq> [] \<longrightarrow>
        (chat_history (last result) = None \<or> chat_history (last result) = Some []
           \<longrightarrow> main_print result user_query = Inr [could_not_process])
      \<and> (\<forall>history. chat_history (last result) = Some history \<and> history \<noteq> [] \<longrightarrow>
            (last history ''content'' = None
               \<longrightarrow> main_print result user_query = Inl KeyError)
          \<and> (last history ''content'' = Some PyNonStr
               \<longrightarrow> main_print result user_query = Inl TypeError)
          \<and> (\<forall>last_message. last history ''content'' = Some (PyStr last_message) \<longrightarrow>
                (\<exists>line. main_print result user_query = Inr [line])
              \<and> (search_score last_message = None \<or> search_restaurant user_query = None
                   \<longrightarrow> main_print result user_query = Inr [last_message]))))"
proof (intro conjI impI allI)
  show "main_print [] user_query = Inr []" by (simp add: main_print_def)
next
  assume "result \<noteq> []"
    and "chat_history (last result) = None \<or> chat_history (last result) = Some []"
  then show "main_print result user_query = Inr [could_not_process]"
    by (rule main_print_notice)
next
  fix history
  assume "result \<noteq> []" and "chat_history (last result) = Some history \<and> history \<noteq> []"
    and "last history ''content'' = None"
  then show "main_print result user_query = Inl KeyError"
    using main_print_no_content by blast
next
  fix history
  assume "result \<noteq> []" and "chat_history (last result) = Some history \<and> history \<noteq> []"
    and "last history ''content'' = Some PyNonStr"
  then show "main_print result user_query = Inl TypeError"
    using main_print_not_a_string by blast
next
  fix history last_message
  assume "result \<noteq> []" and "chat_history (last result) = Some history \<and> history \<noteq> []"
    and "last history ''content'' = Some (PyStr last_message)"
  then show "\<exists>line. main_print result user_query = Inr [line]"
    using main_print_string_one_line by blast
next
  fix history last_message
  assume "result \<noteq> []" and "chat_history (last result) = Some history \<and> history \<noteq> []"
    and "last history ''content'' = Some (PyStr last_message)"
    and "search_score last_message = None \<or> search_restaurant user_query = None"
  then show "main_print result user_query = Inr [last_message]"
    using main_print_raw by blast
qed

theorem main_print_one_line_witness:
  "main_print [\<lparr>chat_history = None\<rparr>] ''Qual a nota do Bob's?'' = Inr [could_not_process]
   \<and> main_print [\<lparr>chat_history = Some []\<rparr>] ''Qual a nota do Bob's?'' = Inr [could_not_process]
   \<and> main_print [\<lparr>chat_history = Some [[''role'' \<mapsto> PyStr ''assistant'']]\<rparr>]
         ''Qual a nota do Bob's?'' = Inl KeyError
   \<and> main_print [\<lparr>chat_history = Some [[''content'' \<mapsto> PyNonStr]]\<rparr>]
         ''Qual a nota do Bob's?'' = Inl TypeError
   \<and> search_score ''Sem dados.'' = None
   \<and> main_print [\<lparr>chat_history = Some [[''content'' \<mapsto> PyStr ''Sem dados.'']]\<rparr>]
         ''Qual a nota do Bob's?''
       = Inr [''Sem dados.'']"
proof -
  have s: "search_score ''Sem dados.'' = None"
    by (simp add: match_score_at_def is_digit_def)
  show ?thesis
    using s
      main_print_one_line [of "''Qual a nota do Bob's?''" "[\<lparr>chat_history = None\<rparr>]"]
      main_print_one_line [of "''Qual a nota do Bob's?''" "[\<lparr>chat_history = Some []\<rparr>]"]
      main_print_one_line [of "''Qual a nota do Bob's?''"
         "[\<lparr>chat_history = Some [[''role'' \<mapsto> PyStr ''assistant'']]\<rparr>]"]
      main_print_one_line [of "''Qual a nota do Bob's?''"
         "[\<lparr>chat_history = Some [[''content'' \<mapsto> PyNonStr]]\<rparr>]"]
      main_print_one_line [of "''Qual a nota do Bob's?''"
         "[\<lparr>chat_history = Some [[''content'' \<mapsto> PyStr ''Sem dados.'']]\<rparr>]"]
    by simp
qed

text \<open>
  The claim that the step never raises and prints one line in all cases fails twice:
  at the empty list of transcripts nothing is printed, and at a last message whose
  content is \<^verbatim>\<open>None\<close> a TypeError is raised.
\<close>

theorem main_print_empty_result:
  "main_print [] ''Qual a nota do Bob's?'' = Inr []
   \<and> main_print [\<lparr>chat_history = Some [[''content'' \<mapsto> PyNonStr]]\<rparr>] ''Qual a nota do Bob's?''
       = Inl TypeError"
  by (simp add: main_print_def py_getitem_def)

section \<open>Properties of the stage list\<close>

text \<open>
  C9. The list of chats handed to \<^verbatim>\<open>initiate_chats\<close> has exactly three stages, in the
  order fetch, analyze, score (each stage's recipient is the sender of the next), and
  every stage has \<open>max_turns\<close> equal to 3.
\<close>

theorem chat_sequence_stages:
  "length (chat_sequence user_query) = 3
   \<and> map sender (chat_sequence user_query)
        = [entrypoint_agent, data_fetch_agent, review_analysis_agent]
   \<and> map recipient (chat_sequence user_query)
        = [data_fetch_agent, review_analysis_agent, score_agent]
   \<and> map max_turns (chat_sequence user_query) = [3, 3, 3]"
  by (simp add: chat_sequence_def)

end
